theory Spec2Isabelle
  imports Main "HOL-Library.Word"
begin

section \<open>The kernel as seen by \<open>socket.c\<close>\<close>

text \<open>
  The functions of \<open>source/socket.c\<close> wrap the system calls \<open>socket\<close>, \<open>getsockname\<close>,
  \<open>connect\<close>, \<open>bind\<close>, \<open>listen\<close>, \<open>accept\<close> and \<open>close\<close>. The kernel is modelled as a
  script of the values the coming calls return (a call on an exhausted script returns
  \<open>-1\<close>), the addresses the coming \<open>getsockname\<close> calls leave in the structure they are
  given (when none is left, \<open>0\<close>), and the trace of the calls made so far, each with the
  value it returned. Descriptors and statuses are C \<open>int\<close>s that are only compared and
  passed on, so they are HOL integers. The \<open>debug\<close> parameter only guards calls of
  \<open>info_print\<close> and \<open>error_print\<close>; it is left out.

  A \<open>struct sockaddr_in\<close> has a family, a 16-bit port and a 32-bit address. \<open>htons\<close> takes
  a \<open>uint16_t\<close>, so the \<open>int\<close> port is first reduced modulo \<open>2 ^ 16\<close>; the byte order in
  which the 16 bits are stored is not modelled, \<open>sin_port\<close> holds the port number they
  denote. \<open>AF_INET\<close> is \<open>2\<close>.
\<close>

record sockaddr_in =
  sin_family :: int
  sin_port :: "16 word"
  sin_addr :: "32 word"

definition AF_INET :: int where
  "AF_INET = 2"

definition htons :: "int \<Rightarrow> 16 word" where
  "htons port = word_of_int port"

datatype syscall =
    Sys_socket
  | Sys_getsockname int
  | Sys_connect int sockaddr_in
  | Sys_bind int sockaddr_in
  | Sys_listen int int
  | Sys_accept int
  | Sys_close int

record kernel =
  script :: "int list"
  names :: "32 word list"
  trace :: "(syscall \<times> int) list"

definition boot :: "int list \<Rightarrow> 32 word list \<Rightarrow> kernel" where
  "boot s ns = \<lparr>script = s, names = ns, trace = []\<rparr>"

definition next_result :: "int list \<Rightarrow> int" where
  "next_result s = (case s of [] \<Rightarrow> - 1 | r # _ \<Rightarrow> r)"

definition next_name :: "32 word list \<Rightarrow> 32 word" where
  "next_name ns = (case ns of [] \<Rightarrow> 0 | a # _ \<Rightarrow> a)"

definition sys :: "syscall \<Rightarrow> kernel \<Rightarrow> int \<times> kernel" where
  "sys c k =
     (next_result (script k),
      k\<lparr>script := tl (script k), trace := trace k @ [(c, next_result (script k))]\<rparr>)"

text \<open>
  \<open>getsockname\<close> returns its status and leaves an address in the structure: the
  socket's name when it succeeds, what the uninitialised structure held when it fails.
\<close>

definition getsockname :: "int \<Rightarrow> kernel \<Rightarrow> int \<times> 32 word \<times> kernel" where
  "getsockname sockfd k =
     (case sys (Sys_getsockname sockfd) k of
        (r, k1) \<Rightarrow> (r, next_name (names k1), k1\<lparr>names := tl (names k1)\<rparr>))"

section \<open>\<open>socket.c\<close>: creating, connecting and closing sockets\<close>

text \<open>
  \<open>sockaddr_create\<close> builds the structure that \<open>connect\<close> and \<open>bind\<close> are given. Its
  address is the one \<open>getsockname\<close> leaves when the address string is empty (a failure
  of \<open>getsockname\<close> is only logged), and \<open>inet_addr\<close> of the string otherwise; then the
  family is set to \<open>AF_INET\<close> and the port to \<open>htons(port)\<close>. \<open>inet_addr\<close> is a function of
  the C library; it is a parameter of every function that reaches \<open>sockaddr_create\<close>.
\<close>

definition sockaddr_create ::
  "(string \<Rightarrow> 32 word) \<Rightarrow> int \<Rightarrow> string \<Rightarrow> int \<Rightarrow> kernel \<Rightarrow> sockaddr_in \<times> kernel" where
  "sockaddr_create inet_addr sockfd address port k =
     (if length address = 0
      then (case getsockname sockfd k of
              (r, a, k1) \<Rightarrow>
                (\<lparr>sin_family = AF_INET, sin_port = htons port, sin_addr = a\<rparr>, k1))
      else (\<lparr>sin_family = AF_INET, sin_port = htons port, sin_addr = inet_addr address\<rparr>, k))"

definition socket_bind ::
  "(string \<Rightarrow> 32 word) \<Rightarrow> int \<Rightarrow> string \<Rightarrow> int \<Rightarrow> kernel \<Rightarrow> int \<times> kernel" where
  "socket_bind inet_addr sockfd address port k =
     (case sockaddr_create inet_addr sockfd address port k of
        (addr, k1) \<Rightarrow>
          (case sys (Sys_bind sockfd addr) k1 of
             (r, k2) \<Rightarrow> if r = - 1 then (- 1, k2) else (0, k2)))"

definition socket_listen :: "int \<Rightarrow> int \<Rightarrow> kernel \<Rightarrow> int \<times> kernel" where
  "socket_listen sockfd backlog k =
     (let (r, k1) = sys (Sys_listen sockfd backlog) k
      in if r = - 1 then (- 1, k1) else (0, k1))"

definition socket_create :: "kernel \<Rightarrow> int \<times> kernel" where
  "socket_create k =
     (let (sockfd, k1) = sys Sys_socket k
      in if sockfd = - 1 then (- 1, k1) else (sockfd, k1))"

text \<open>
  \<open>socket_close\<close> takes a pointer to the descriptor; the model takes the descriptor and
  returns the status, the descriptor as the call leaves it, and the kernel.
\<close>

definition socket_close :: "int \<Rightarrow> kernel \<Rightarrow> int \<times> int \<times> kernel" where
  "socket_close sockfd k =
     (if sockfd = - 1 then (0, sockfd, k)
      else (let (r, k1) = sys (Sys_close sockfd) k
            in if r = - 1 then (- 1, sockfd, k1) else (0, - 1, k1)))"

definition server_socket_create ::
  "(string \<Rightarrow> 32 word) \<Rightarrow> string \<Rightarrow> int \<Rightarrow> kernel \<Rightarrow> int \<times> kernel" where
  "server_socket_create inet_addr address port k =
     (let (servfd, k1) = socket_create k
      in if servfd = - 1 then (- 1, k1)
         else (let (b, k2) = socket_bind inet_addr servfd address port k1
               in if b = - 1
                  then (let (st, fd, k3) = socket_close servfd k2 in (- 1, k3))
                  else (let (l, k3) = socket_listen servfd 1 k2
                        in if l = - 1
                           then (let (st, fd, k4) = socket_close servfd k3 in (- 1, k4))
                           else (servfd, k3))))"

definition socket_connect ::
  "(string \<Rightarrow> 32 word) \<Rightarrow> int \<Rightarrow> string \<Rightarrow> int \<Rightarrow> kernel \<Rightarrow> int \<times> kernel" where
  "socket_connect inet_addr sockfd address port k =
     (case sockaddr_create inet_addr sockfd address port k of
        (addr, k1) \<Rightarrow>
          (case sys (Sys_connect sockfd addr) k1 of
             (r, k2) \<Rightarrow> if r = - 1 then (- 1, k2) else (0, k2)))"

definition client_socket_create ::
  "(string \<Rightarrow> 32 word) \<Rightarrow> string \<Rightarrow> int \<Rightarrow> kernel \<Rightarrow> int \<times> kernel" where
  "client_socket_create inet_addr address port k =
     (let (sockfd, k1) = socket_create k
      in if sockfd = - 1 then (- 1, k1)
         else (let (c, k2) = socket_connect inet_addr sockfd address port k1
               in if c = - 1
                  then (let (st, fd, k3) = socket_close sockfd k2 in (- 1, k3))
                  else (sockfd, k2)))"

text \<open>
  \<open>accept\<close> overwrites the structure it is given with the peer's address, so the
  structure \<open>sockaddr_create\<close> built is not part of the event.
\<close>

definition socket_accept ::
  "(string \<Rightarrow> 32 word) \<Rightarrow> int \<Rightarrow> string \<Rightarrow> int \<Rightarrow> kernel \<Rightarrow> int \<times> kernel" where
  "socket_accept inet_addr servfd address port k =
     (case sockaddr_create inet_addr servfd address port k of
        (addr, k1) \<Rightarrow>
          (case sys (Sys_accept servfd) k1 of
             (sockfd, k2) \<Rightarrow> if sockfd = - 1 then (- 1, k2) else (sockfd, k2)))"

text \<open>
  \<open>client_or_server_socket_create\<close> writes through the two pointers \<open>sockfd\<close> and
  \<open>servfd\<close>. The model takes the value \<open>*servfd\<close> has on entry (\<open>*sockfd\<close> is overwritten
  on every path) and returns the status with the final \<open>*sockfd\<close> and \<open>*servfd\<close>.
\<close>

definition client_or_server_socket_create ::
  "(string \<Rightarrow> 32 word) \<Rightarrow> int \<Rightarrow> string \<Rightarrow> int \<Rightarrow> kernel \<Rightarrow> int \<times> int \<times> int \<times> kernel" where
  "client_or_server_socket_create inet_addr servfd_in address port k =
     (let (sockfd, k1) = client_socket_create inet_addr address port k
      in if sockfd \<noteq> - 1 then (0, sockfd, servfd_in, k1)
         else (let (servfd, k2) = server_socket_create inet_addr address port k1
               in if servfd = - 1 then (1, sockfd, servfd, k2)
                  else (let (sockfd', k3) = socket_accept inet_addr servfd address port k2
                        in if sockfd' \<noteq> - 1 then (0, sockfd', servfd, k3)
                           else (let (st, servfd', k4) = socket_close servfd k3
                                 in (2, sockfd', servfd', k4)))))"

text \<open>Calling \<open>socket_close\<close> on the same handle \<open>n\<close> times, collecting the statuses.\<close>

fun socket_close_times :: "nat \<Rightarrow> int \<Rightarrow> kernel \<Rightarrow> int list \<times> int \<times> kernel" where
  "socket_close_times 0 sockfd k = ([], sockfd, k)"
| "socket_close_times (Suc n) sockfd k =
     (let (st, sockfd', k1) = socket_close sockfd k;
          (sts, sockfd'', k2) = socket_close_times n sockfd' k1
      in (st # sts, sockfd'', k2))"

subsection \<open>Observing a trace\<close>






fun is_close :: "syscall \<Rightarrow> bool" where
  "is_close (Sys_close fd) = True"
| "is_close _ = False"

fun is_getsockname :: "syscall \<Rightarrow> bool" where
  "is_getsockname (Sys_getsockname fd) = True"
| "is_getsockname _ = False"

text \<open>The calls of one kind in a trace, those that succeeded and those that failed.\<close>

definition issued :: "(syscall \<Rightarrow> bool) \<Rightarrow> (syscall \<times> int) list \<Rightarrow> (syscall \<times> int) list" where
  "issued p tr = filter (\<lambda>e. p (fst e)) tr"

definition succeeded :: "(syscall \<Rightarrow> bool) \<Rightarrow> (syscall \<times> int) list \<Rightarrow> bool" where
  "succeeded p tr = list_ex (\<lambda>e. p (fst e) \<and> snd e \<noteq> - 1) tr"

definition failed :: "(syscall \<Rightarrow> bool) \<Rightarrow> (syscall \<times> int) list \<Rightarrow> bool" where
  "failed p tr = list_ex (\<lambda>e. p (fst e) \<and> snd e = - 1) tr"

text \<open>The trace without the \<open>getsockname\<close> lookups of \<open>sockaddr_create\<close>.\<close>

definition net_calls :: "(syscall \<times> int) list \<Rightarrow> (syscall \<times> int) list" where
  "net_calls tr = filter (\<lambda>e. \<not> is_getsockname (fst e)) tr"

text \<open>
  The descriptors a trace leaves open: those a successful \<open>socket\<close> or \<open>accept\<close>
  returned and no later successful \<open>close\<close> released.
\<close>

fun open_fds :: "(syscall \<times> int) list \<Rightarrow> int list \<Rightarrow> int list" where
  "open_fds [] fds = fds"
| "open_fds ((Sys_socket, r) # tr) fds = open_fds tr (if r = - 1 then fds else r # fds)"
| "open_fds ((Sys_accept fd, r) # tr) fds = open_fds tr (if r = - 1 then fds else r # fds)"
| "open_fds ((Sys_close fd, r) # tr) fds = open_fds tr (if r = - 1 then fds else removeAll fd fds)"
| "open_fds (e # tr) fds = open_fds tr fds"




text \<open>
  The structure \<open>sockaddr_create\<close> builds from an address string and a port, \<open>n\<close> being
  the address \<open>getsockname\<close> left (used when the string is empty).
\<close>

definition endpoint :: "(string \<Rightarrow> 32 word) \<Rightarrow> string \<Rightarrow> int \<Rightarrow> 32 word \<Rightarrow> sockaddr_in" where
  "endpoint inet_addr address port n =
     \<lparr>sin_family = AF_INET, sin_port = htons port,
      sin_addr = (if address = [] then n else inet_addr address)\<rparr>"


text \<open>The \<open>getsockname\<close> event \<open>sockaddr_create\<close> adds for an empty address string.\<close>

definition gsn :: "string \<Rightarrow> int \<Rightarrow> int \<Rightarrow> (syscall \<times> int) list" where
  "gsn address fd g = (if address = [] then [(Sys_getsockname fd, g)] else [])"

section \<open>\<open>socket.c\<close>: reading and writing one line\<close>

text \<open>
  A C \<open>char\<close> is a byte; \<open>'\0'\<close> is \<open>0\<close> and \<open>'\n'\<close> is \<open>10\<close>. \<open>socket_read\<close> and
  \<open>socket_write\<close> move one byte per \<open>recv\<close> or \<open>send\<close> call. A connection holds what the
  coming \<open>recv\<close> calls find (a byte or an error; when nothing is left the peer has
  closed and \<open>recv\<close> returns \<open>0\<close>), the outcomes of the coming \<open>send\<close> calls (after the
  scripted ones every \<open>send\<close> transmits its byte), and the bytes transmitted so far.
  \<open>recv\<close> stores a byte through its pointer only when it received one.
\<close>

type_synonym byte = "8 word"

datatype recv_event = Recv_error | Recv_byte byte

datatype send_result = Send_error | Send_none | Send_one

record connection =
  inbox :: "recv_event list"
  send_script :: "send_result list"
  outbox :: "byte list"

definition recv :: "connection \<Rightarrow> byte \<Rightarrow> int \<times> byte \<times> connection" where
  "recv c symbol =
     (case inbox c of
        [] \<Rightarrow> (0, symbol, c)
      | Recv_error # es \<Rightarrow> (- 1, symbol, c\<lparr>inbox := es\<rparr>)
      | Recv_byte b # es \<Rightarrow> (1, b, c\<lparr>inbox := es\<rparr>))"

definition send :: "connection \<Rightarrow> byte \<Rightarrow> int \<times> connection" where
  "send c symbol =
     (case send_script c of
        [] \<Rightarrow> (1, c\<lparr>outbox := outbox c @ [symbol]\<rparr>)
      | Send_error # rs \<Rightarrow> (- 1, c\<lparr>send_script := rs\<rparr>)
      | Send_none # rs \<Rightarrow> (0, c\<lparr>send_script := rs\<rparr>)
      | Send_one # rs \<Rightarrow> (1, c\<lparr>send_script := rs, outbox := outbox c @ [symbol]\<rparr>))"

text \<open>
  The \<open>for\<close> loop of \<open>socket_read\<close>, from the state \<open>index\<close>, \<open>symbol\<close>. The buffer is the
  caller's array; \<open>sz\<close> is the parameter \<open>size\<close>, the bound the caller passes. The result is the returned
  \<open>ssize_t\<close>, the buffer and the connection.
\<close>

function socket_read_loop ::
  "connection \<Rightarrow> byte list \<Rightarrow> nat \<Rightarrow> nat \<Rightarrow> byte \<Rightarrow> int \<times> byte list \<times> connection" where
  "socket_read_loop c buffer sz index symbol =
     (if index < sz \<and> symbol \<noteq> 10
      then (case recv c symbol of (status, symbol', c') \<Rightarrow>
              if status = - 1 then (- 1, buffer, c')
              else if status = 0 then (0, buffer[index := symbol'], c')
              else socket_read_loop c' (buffer[index := symbol']) sz (index + 1) symbol')
      else (int index, buffer, c))"
  by pat_completeness auto
termination
  by (relation "measure (\<lambda>(c, buffer, sz, index, symbol). sz - index)") auto

definition socket_read :: "connection \<Rightarrow> byte list \<Rightarrow> nat \<Rightarrow> int \<times> byte list \<times> connection" where
  "socket_read c buffer sz = socket_read_loop c buffer sz 0 0"

text \<open>The \<open>for\<close> loop of \<open>socket_write\<close>, from the state \<open>index\<close>.\<close>

function socket_write_loop :: "connection \<Rightarrow> byte list \<Rightarrow> nat \<Rightarrow> nat \<Rightarrow> int \<times> connection" where
  "socket_write_loop c buffer sz index =
     (if index < sz
      then (case send c (buffer ! index) of (status, c') \<Rightarrow>
              if status = - 1 then (- 1, c')
              else if status = 0 then (0, c')
              else if buffer ! index = 0 \<or> buffer ! index = 10 then (int index, c')
              else socket_write_loop c' buffer sz (index + 1))
      else (int index, c))"
  by pat_completeness auto
termination
  by (relation "measure (\<lambda>(c, buffer, sz, index). sz - index)") auto

definition socket_write :: "connection \<Rightarrow> byte list \<Rightarrow> nat \<Rightarrow> int \<times> connection" where
  "socket_write c buffer sz = socket_write_loop c buffer sz 0"

text \<open>The test \<open>symbol == '\0' || symbol == '\n'\<close> that ends the loop of \<open>socket_write\<close>.\<close>

definition terminator :: "byte \<Rightarrow> bool" where
  "terminator symbol = (symbol = 0 \<or> symbol = 10)"

text \<open>The first \<open>n\<close> coming \<open>send\<close> calls of a connection all transmit their byte.\<close>

definition sends_succeed :: "nat \<Rightarrow> connection \<Rightarrow> bool" where
  "sends_succeed n c = list_all (\<lambda>r. r = Send_one) (take n (send_script c))"

section \<open>\<open>procom.c\<close>: the two transfer loops\<close>

text \<open>
  The global variables of \<open>procom.c\<close> that the loops and \<open>main\<close> use. A descriptor is
  active when it is not \<open>-1\<close>.
\<close>

record globals =
  stdin_fifo :: int
  stdout_fifo :: int
  sockfd :: int
  servfd :: int
  fifo_reverse :: bool
  stdin_running :: bool
  stdout_running :: bool

text \<open>
  The four \<open>*_thread_read\<close> and \<open>*_thread_write\<close> functions only choose which transfer
  function to call on which descriptor and return what it returns. \<open>buffer_read\<close> and
  \<open>buffer_write\<close> are not part of \<open>socket.c\<close> or \<open>procom.c\<close>, so the model of a thread
  function is the call it makes; \<open>stdout_thread_read\<close> makes none and returns \<open>-1\<close> when
  neither the stdin FIFO nor the socket is active.
\<close>

datatype io_call =
    Buffer_read int
  | Buffer_write int
  | Socket_read int
  | Socket_write int

definition stdin_thread_read :: "globals \<Rightarrow> io_call" where
  "stdin_thread_read g =
     (if stdin_fifo g \<noteq> - 1 \<and> sockfd g \<noteq> - 1 then Buffer_read (stdin_fifo g)
      else Buffer_read 0)"

definition stdin_thread_write :: "globals \<Rightarrow> io_call" where
  "stdin_thread_write g =
     (if stdin_fifo g \<noteq> - 1 \<and> sockfd g \<noteq> - 1 then Socket_write (sockfd g)
      else if stdout_fifo g \<noteq> - 1 then Buffer_write (stdout_fifo g)
      else if sockfd g \<noteq> - 1 then Socket_write (sockfd g)
      else Buffer_write 1)"

definition stdout_thread_read :: "globals \<Rightarrow> io_call option" where
  "stdout_thread_read g =
     (if stdin_fifo g \<noteq> - 1 \<and> sockfd g \<noteq> - 1 then Some (Socket_read (sockfd g))
      else if sockfd g \<noteq> - 1 then Some (Socket_read (sockfd g))
      else if stdin_fifo g \<noteq> - 1 then Some (Buffer_read (stdin_fifo g))
      else None)"

definition stdout_thread_write :: "globals \<Rightarrow> io_call" where
  "stdout_thread_write g =
     (if stdout_fifo g \<noteq> - 1 \<and> sockfd g \<noteq> - 1 then Buffer_write (stdout_fifo g)
      else Buffer_write 1)"

text \<open>
  What a routine does is a list of events: a read with the value it returned, a write
  (the routines discard what a write returns), and \<open>pthread_kill\<close> of a thread with
  \<open>SIGUSR1\<close>. The values the successive reads of a loop return are given by a function
  of the iteration number; a loop whose reads are all positive never ends, so the loops
  are partial functions. The globals are those the routine finds on entry: the signal
  handlers and the sibling thread act on a loop only through the values its reads return.
\<close>

datatype thread = Stdin_thread | Stdout_thread

datatype event =
    Ev_read "io_call option" int
  | Ev_write io_call
  | Ev_kill thread

definition read_value :: "io_call option \<Rightarrow> int \<Rightarrow> int" where
  "read_value call r = (case call of None \<Rightarrow> - 1 | Some x \<Rightarrow> r)"

partial_function (option) stdout_loop ::
  "globals \<Rightarrow> (nat \<Rightarrow> int) \<Rightarrow> nat \<Rightarrow> event list \<Rightarrow> event list option" where
  "stdout_loop g reads i tr =
     (if read_value (stdout_thread_read g) (reads i) > 0
      then stdout_loop g reads (i + 1)
             (tr @ [Ev_read (stdout_thread_read g) (read_value (stdout_thread_read g) (reads i)),
                    Ev_write (stdout_thread_write g)])
      else Some (tr @ [Ev_read (stdout_thread_read g) (read_value (stdout_thread_read g) (reads i))]))"

definition stdout_routine :: "globals \<Rightarrow> (nat \<Rightarrow> int) \<Rightarrow> (globals \<times> event list) option" where
  "stdout_routine g reads =
     (if stdin_fifo g = - 1 \<and> sockfd g = - 1 then Some (g, [])
      else (case stdout_loop (g\<lparr>stdout_running := True\<rparr>) reads 0 [] of
              None \<Rightarrow> None
            | Some tr \<Rightarrow> Some (g\<lparr>stdout_running := False\<rparr>, tr @ [Ev_kill Stdin_thread])))"

partial_function (option) stdin_loop ::
  "globals \<Rightarrow> (nat \<Rightarrow> int) \<Rightarrow> nat \<Rightarrow> event list \<Rightarrow> event list option" where
  "stdin_loop g reads i tr =
     (if reads i > 0
      then stdin_loop g reads (i + 1)
             (tr @ [Ev_read (Some (stdin_thread_read g)) (reads i), Ev_write (stdin_thread_write g)])
      else Some (tr @ [Ev_read (Some (stdin_thread_read g)) (reads i)]))"

definition stdin_routine :: "globals \<Rightarrow> (nat \<Rightarrow> int) \<Rightarrow> (globals \<times> event list) option" where
  "stdin_routine g reads =
     (case stdin_loop (g\<lparr>stdin_running := True\<rparr>) reads 0 [] of
        None \<Rightarrow> None
      | Some tr \<Rightarrow> Some (g\<lparr>stdin_running := False\<rparr>, tr @ [Ev_kill Stdout_thread]))"

text \<open>The events of \<open>k\<close> rounds of a loop: a positive read, then the write.\<close>

definition rounds :: "io_call option \<Rightarrow> io_call \<Rightarrow> (nat \<Rightarrow> int) \<Rightarrow> nat \<Rightarrow> event list" where
  "rounds rd wr reads k = concat (map (\<lambda>i. [Ev_read rd (reads i), Ev_write wr]) [0..<k])"

text \<open>
  One round of the loop of \<open>stdout_routine\<close> while the socket is active: the buffer is
  \<open>char buffer[1024]\<close>, zeroed before every round; \<open>stdout_thread_read\<close> calls
  \<open>socket_read\<close> on the socket with the bound \<open>sizeof(buffer) - 1\<close>; when that returns a
  positive count, \<open>stdout_thread_write\<close> hands the buffer and the same bound to
  \<open>buffer_write\<close>. \<open>buffer_write\<close> is not part of \<open>socket.c\<close> or \<open>procom.c\<close>; it is the
  parameter, acting on a state of the sink. The result is the count read, the
  connection and the sink.
\<close>

definition stdout_round ::
  "(byte list \<Rightarrow> nat \<Rightarrow> 'w \<Rightarrow> int \<times> 'w) \<Rightarrow> connection \<Rightarrow> 'w \<Rightarrow> int \<times> connection \<times> 'w" where
  "stdout_round buffer_write c w =
     (case socket_read c (replicate 1024 0) (1024 - 1) of (n, buffer, c') \<Rightarrow>
        if n > 0
        then (case buffer_write buffer (1024 - 1) w of (r, w') \<Rightarrow> (n, c', w'))
        else (n, c', w))"

text \<open>
  One round of the loop of \<open>stdin_routine\<close> while \<open>stdin_thread_write\<close> writes to the
  socket: \<open>stdin_thread_read\<close> hands the zeroed buffer and the bound to \<open>buffer_read\<close>,
  the parameter, which acts on a state of the source and returns its count and the
  buffer as it leaves it; when the count is positive, \<open>socket_write\<close> is given the
  buffer and the same bound.
\<close>

definition stdin_round ::
  "(byte list \<Rightarrow> nat \<Rightarrow> 's \<Rightarrow> int \<times> byte list \<times> 's) \<Rightarrow> 's \<Rightarrow> connection \<Rightarrow>
     int \<times> 's \<times> connection" where
  "stdin_round buffer_read s c =
     (case buffer_read (replicate 1024 0) (1024 - 1) s of (n, buffer, s') \<Rightarrow>
        if n > 0
        then (case socket_write c buffer (1024 - 1) of (r, c') \<Rightarrow> (n, s', c'))
        else (n, s', c))"

subsection \<open>The selection of source and sink as the design states it\<close>

text \<open>
  The table of the design document, over the three facts it names: the stdin FIFO is
  active, the stdout FIFO is active, the socket is active.
\<close>

datatype source = Terminal_input | Fifo_in | Socket_in

datatype sink = Terminal_output | Fifo_out | Socket_out

definition spec_upload_source :: "bool \<Rightarrow> bool \<Rightarrow> bool \<Rightarrow> source" where
  "spec_upload_source fifo_in fifo_out socket =
     (if fifo_in \<and> socket then Fifo_in else Terminal_input)"

definition spec_upload_sink :: "bool \<Rightarrow> bool \<Rightarrow> bool \<Rightarrow> sink" where
  "spec_upload_sink fifo_in fifo_out socket =
     (if fifo_in \<and> socket then Socket_out
      else if fifo_out then Fifo_out
      else if socket then Socket_out
      else Terminal_output)"

definition spec_download_source :: "bool \<Rightarrow> bool \<Rightarrow> bool \<Rightarrow> source option" where
  "spec_download_source fifo_in fifo_out socket =
     (if socket then Some Socket_in
      else if fifo_in \<and> \<not> socket then Some Fifo_in
      else None)"

definition spec_download_sink :: "bool \<Rightarrow> bool \<Rightarrow> bool \<Rightarrow> sink" where
  "spec_download_sink fifo_in fifo_out socket =
     (if fifo_out \<and> socket then Fifo_out else Terminal_output)"

text \<open>The call that reads a source, and the call that writes a sink, under given globals.\<close>

fun read_call :: "globals \<Rightarrow> source \<Rightarrow> io_call" where
  "read_call g Terminal_input = Buffer_read 0"
| "read_call g Fifo_in = Buffer_read (stdin_fifo g)"
| "read_call g Socket_in = Socket_read (sockfd g)"

fun write_call :: "globals \<Rightarrow> sink \<Rightarrow> io_call" where
  "write_call g Terminal_output = Buffer_write 1"
| "write_call g Fifo_out = Buffer_write (stdout_fifo g)"
| "write_call g Socket_out = Socket_write (sockfd g)"

section \<open>\<open>procom.c\<close>: \<open>main\<close>\<close>

text \<open>
  The fields of \<open>struct args\<close> that \<open>main\<close> and \<open>try_socket_create\<close> read, as
  \<open>argp_parse\<close> leaves them; a null pointer is \<open>None\<close>.
\<close>

record args =
  args_stdin_path :: "string option"
  args_stdout_path :: "string option"
  args_address :: "string option"
  args_port :: int

text \<open>
  \<open>main\<close> uses two macros and four functions that \<open>procom.h\<close> declares and neither
  \<open>socket.c\<close> nor \<open>procom.c\<close> defines, and reaches \<open>inet_addr\<close> of the C library. They
  are parameters: \<open>inet_addr\<close>; the default address and port;
  \<open>stdin_stdout_fifo_open\<close>, from the two descriptors, the two paths and the order flag
  to a status and the two descriptors; \<open>stdin_stdout_thread_start\<close>, which runs the two
  routines and may change every global and make system calls; \<open>stdin_fifo_close\<close> and
  \<open>stdout_fifo_close\<close>, from a descriptor to the descriptor they leave.
\<close>

record externals =
  libc_inet_addr :: "string \<Rightarrow> 32 word"
  DEFAULT_ADDRESS :: string
  DEFAULT_PORT :: int
  stdin_stdout_fifo_open ::
    "int \<Rightarrow> string option \<Rightarrow> int \<Rightarrow> string option \<Rightarrow> bool \<Rightarrow> int \<times> int \<times> int"
  stdin_stdout_thread_start :: "globals \<times> kernel \<Rightarrow> globals \<times> kernel"
  stdin_fifo_close :: "int \<Rightarrow> int"
  stdout_fifo_close :: "int \<Rightarrow> int"

definition try_socket_create ::
  "externals \<Rightarrow> args \<Rightarrow> globals \<Rightarrow> kernel \<Rightarrow> int \<times> args \<times> globals \<times> kernel" where
  "try_socket_create ext a g k =
     (if args_address a = None \<and> args_port a = - 1 then (0, a, g, k)
      else (let addr = (case args_address a of None \<Rightarrow> DEFAULT_ADDRESS ext | Some x \<Rightarrow> x);
                prt = (if args_port a = - 1 then DEFAULT_PORT ext else args_port a);
                a' = a\<lparr>args_address := Some addr, args_port := prt\<rparr>
            in case client_or_server_socket_create (libc_inet_addr ext) (servfd g) addr prt k of
                 (status, sockfd', servfd', k') \<Rightarrow>
                   (if status \<noteq> 0 then 1 else 0, a', g\<lparr>sockfd := sockfd', servfd := servfd'\<rparr>, k')))"

text \<open>
  \<open>main\<close> after \<open>argp_parse\<close> has filled \<open>args\<close> and the signal handlers are installed.
  The result is the value \<open>main\<close> returns, with the globals and the kernel at that point.
\<close>

definition main :: "externals \<Rightarrow> args \<Rightarrow> globals \<Rightarrow> kernel \<Rightarrow> int \<times> globals \<times> kernel" where
  "main ext a g k =
     (case try_socket_create ext a g k of (created, a1, g1, k1) \<Rightarrow>
        (let (g2, k2) =
               (if created = 0
                then (case stdin_stdout_fifo_open ext (stdin_fifo g1) (args_stdin_path a1)
                             (stdout_fifo g1) (args_stdout_path a1) (fifo_reverse g1) of
                        (opened, fi, fo) \<Rightarrow>
                          (if opened = 0
                           then stdin_stdout_thread_start ext
                                  (g1\<lparr>stdin_fifo := fi, stdout_fifo := fo\<rparr>, k1)
                           else (g1\<lparr>stdin_fifo := fi, stdout_fifo := fo\<rparr>, k1)))
                else (g1, k1));
             g3 = g2\<lparr>stdout_fifo := stdout_fifo_close ext (stdout_fifo g2)\<rparr>;
             g4 = g3\<lparr>stdin_fifo := stdin_fifo_close ext (stdin_fifo g3)\<rparr>
         in case socket_close (sockfd g4) k2 of (st1, sockfd', k3) \<Rightarrow>
              (case socket_close (servfd g4) k3 of (st2, servfd', k4) \<Rightarrow>
                 (0, g4\<lparr>sockfd := sockfd', servfd := servfd'\<rparr>, k4))))"

section \<open>Closing a handle\<close>

lemma socket_close_times_closed:
  "socket_close_times n (- 1) k = (replicate n 0, - 1, k)"
  by (induction n) (simp_all add: socket_close_def)

text \<open>
  C7. Closing is idempotent. On a handle that holds the sentinel \<open>-1\<close>, any number \<open>n\<close>
  of further calls of \<open>socket_close\<close> all return \<open>0\<close>, leave the handle at \<open>-1\<close> and make
  no system call (the kernel is unchanged). A handle is in that state after a call of
  \<open>socket_close\<close> that returned \<open>0\<close>, whatever it held before.
\<close>

theorem socket_close_idempotent:
  "socket_close_times n (- 1) k = (replicate n 0, - 1, k) \<and>
   (fst (socket_close fd k) = 0 \<longrightarrow>
      (case socket_close fd k of (st, fd', k') \<Rightarrow>
         fd' = - 1 \<and> socket_close_times n fd' k' = (replicate n 0, - 1, k')))"
  by (auto simp: socket_close_times_closed socket_close_def sys_def Let_def split: prod.splits if_splits)

theorem socket_close_idempotent_witness:
  "fst (socket_close 4 (boot [0] [])) = 0 \<and>
   socket_close 4 (boot [0] []) = (0, - 1, \<lparr>script = [], names = [], trace = [(Sys_close 4, 0)]\<rparr>) \<and>
   socket_close_times 3 (- 1) \<lparr>script = [], names = [], trace = [(Sys_close 4, 0)]\<rparr> =
     ([0, 0, 0], - 1, \<lparr>script = [], names = [], trace = [(Sys_close 4, 0)]\<rparr>)"
proof -
  have h: "fst (socket_close 4 (boot [0] [])) = 0"
    by (simp add: socket_close_def sys_def boot_def next_result_def)
  have e: "socket_close 4 (boot [0] []) = (0, - 1, \<lparr>script = [], names = [], trace = [(Sys_close 4, 0)]\<rparr>)"
    by (simp add: socket_close_def sys_def boot_def next_result_def)
  show ?thesis
    using socket_close_idempotent [of 3 "boot [0] []" 4] h e
    by (simp add: numeral_3_eq_3)
qed

section \<open>Role negotiation\<close>

lemmas resolver_defs = client_or_server_socket_create_def client_socket_create_def
  server_socket_create_def socket_accept_def socket_connect_def socket_close_def socket_create_def
  socket_listen_def socket_bind_def sockaddr_create_def getsockname_def sys_def boot_def

lemmas trace_defs = issued_def succeeded_def failed_def net_calls_def

text \<open>
  Every run of \<open>client_or_server_socket_create\<close> from a fresh kernel has one of six
  traces: the client connects; or the client attempt fails (at \<open>socket\<close>, or at
  \<open>connect\<close> followed by \<open>close\<close>) and the server attempt ends at \<open>socket\<close>, at \<open>bind\<close>,
  at \<open>listen\<close>, at a successful \<open>accept\<close> or at a failed \<open>accept\<close> followed by \<open>close\<close>.
  Every \<open>connect\<close> and \<open>bind\<close> is given the structure \<open>sockaddr_create\<close> builds.
\<close>

lemma resolver_shapes:
  "(case client_or_server_socket_create ia servfd_in address port (boot s ns) of
      (status, cfd, lfd, k') \<Rightarrow>
     (\<exists>cl. (cl = [(Sys_socket, - 1)] \<or>
            (\<exists>c g n z. c \<noteq> - 1 \<and>
               cl = (Sys_socket, c) # gsn address c g @
                    [(Sys_connect c (endpoint ia address port n), - 1), (Sys_close c, z)])) \<and>
       (status = 1 \<and> cfd = - 1 \<and> lfd = - 1 \<and> trace k' = cl @ [(Sys_socket, - 1)] \<or>
        (\<exists>sv g n z. sv \<noteq> - 1 \<and> status = 1 \<and> cfd = - 1 \<and> lfd = - 1 \<and>
            trace k' = cl @ (Sys_socket, sv) # gsn address sv g @
              [(Sys_bind sv (endpoint ia address port n), - 1), (Sys_close sv, z)]) \<or>
        (\<exists>sv g n b z. sv \<noteq> - 1 \<and> b \<noteq> - 1 \<and> status = 1 \<and> cfd = - 1 \<and> lfd = - 1 \<and>
            trace k' = cl @ (Sys_socket, sv) # gsn address sv g @
              [(Sys_bind sv (endpoint ia address port n), b), (Sys_listen sv 1, - 1), (Sys_close sv, z)]) \<or>
        (\<exists>sv g n b l g' a. sv \<noteq> - 1 \<and> b \<noteq> - 1 \<and> l \<noteq> - 1 \<and> a \<noteq> - 1 \<and>
            status = 0 \<and> cfd = a \<and> lfd = sv \<and>
            trace k' = cl @ (Sys_socket, sv) # gsn address sv g @
              [(Sys_bind sv (endpoint ia address port n), b), (Sys_listen sv 1, l)] @ gsn address sv g' @
              [(Sys_accept sv, a)]) \<or>
        (\<exists>sv g n b l g' z. sv \<noteq> - 1 \<and> b \<noteq> - 1 \<and> l \<noteq> - 1 \<and>
            status = 2 \<and> cfd = - 1 \<and> lfd = (if z = - 1 then sv else - 1) \<and>
            trace k' = cl @ (Sys_socket, sv) # gsn address sv g @
              [(Sys_bind sv (endpoint ia address port n), b), (Sys_listen sv 1, l)] @ gsn address sv g' @
              [(Sys_accept sv, - 1), (Sys_close sv, z)]))) \<or>
     (\<exists>c g n r. c \<noteq> - 1 \<and> r \<noteq> - 1 \<and> status = 0 \<and> cfd = c \<and> lfd = servfd_in \<and>
         trace k' = (Sys_socket, c) # gsn address c g @ [(Sys_connect c (endpoint ia address port n), r)]))"
  by (simp add: resolver_defs gsn_def endpoint_def Let_def split: if_split prod.split)





text \<open>
  C10, as the code has it. The run below returns status \<open>2\<close> and leaves the listening
  descriptor \<open>4\<close> in \<open>*servfd\<close>: \<open>accept\<close> fails and then the \<open>close\<close> of the listening
  socket fails too, and \<open>socket_close\<close> resets the handle only after a successful
  \<open>close\<close>.
\<close>

theorem resolver_failed_close_keeps_servfd:
  "client_or_server_socket_create (\<lambda>a. 2130706433) (- 1) ''127.0.0.1'' 5555
     (boot [3, - 1, 0, 4, 0, 0, - 1, - 1] []) =
    (2, - 1, 4,
     \<lparr>script = [], names = [],
      trace = [(Sys_socket, 3),
               (Sys_connect 3 \<lparr>sin_family = 2, sin_port = 5555, sin_addr = 2130706433\<rparr>, - 1),
               (Sys_close 3, 0), (Sys_socket, 4),
               (Sys_bind 4 \<lparr>sin_family = 2, sin_port = 5555, sin_addr = 2130706433\<rparr>, 0),
               (Sys_listen 4 1, 0), (Sys_accept 4, - 1), (Sys_close 4, - 1)]\<rparr>)"
  by (simp add: resolver_defs Let_def next_result_def AF_INET_def htons_def)

text \<open>
  C10, amended. Whenever \<open>client_or_server_socket_create\<close> returns a nonzero status,
  \<open>*sockfd\<close> is \<open>-1\<close>. With status \<open>1\<close>, \<open>*servfd\<close> is \<open>-1\<close>. With status \<open>2\<close> the last
  call is the \<open>close\<close> of the listening socket whose \<open>accept\<close> failed, and \<open>*servfd\<close> is
  \<open>-1\<close> when that \<open>close\<close> succeeded and still the listening descriptor when it
  failed. If no \<open>close\<close> of the run failed, both descriptors are \<open>-1\<close> and no descriptor
  that the run obtained from \<open>socket\<close> or \<open>accept\<close> is left open.
\<close>

theorem resolver_failure_cleanup:
  assumes run:
    "client_or_server_socket_create ia servfd_in address port (boot s ns) = (status, cfd, lfd, k')"
    and nz: "status \<noteq> 0"
  shows "cfd = - 1 \<and>
         (status = 1 \<longrightarrow> lfd = - 1) \<and>
         (status = 2 \<longrightarrow>
            (\<exists>sv z. sv \<noteq> - 1 \<and> (Sys_accept sv, - 1) \<in> set (trace k') \<and>
               last (trace k') = (Sys_close sv, z) \<and> lfd = (if z = - 1 then sv else - 1))) \<and>
         (\<not> failed is_close (trace k') \<longrightarrow> lfd = - 1 \<and> open_fds (trace k') [] = [])"
  using resolver_shapes [where ia = ia and servfd_in = servfd_in and address = address and
      port = port and s = s and ns = ns] nz
  unfolding run
  apply (simp only: prod.case)
  apply (elim disjE exE conjE)
                 apply (simp_all add: trace_defs gsn_def)
  done

theorem resolver_failure_cleanup_witness:
  "client_or_server_socket_create (\<lambda>a. 2130706433) (- 1) ''127.0.0.1'' 5555
     (boot [3, - 1, 0, 4, 0, 0, - 1, 0] []) =
    (2, - 1, - 1,
     \<lparr>script = [], names = [],
      trace = [(Sys_socket, 3),
               (Sys_connect 3 \<lparr>sin_family = 2, sin_port = 5555, sin_addr = 2130706433\<rparr>, - 1),
               (Sys_close 3, 0), (Sys_socket, 4),
               (Sys_bind 4 \<lparr>sin_family = 2, sin_port = 5555, sin_addr = 2130706433\<rparr>, 0),
               (Sys_listen 4 1, 0), (Sys_accept 4, - 1), (Sys_close 4, 0)]\<rparr>) \<and>
   open_fds [(Sys_socket, 3),
             (Sys_connect 3 \<lparr>sin_family = 2, sin_port = 5555, sin_addr = 2130706433\<rparr>, - 1),
             (Sys_close 3, 0), (Sys_socket, 4),
             (Sys_bind 4 \<lparr>sin_family = 2, sin_port = 5555, sin_addr = 2130706433\<rparr>, 0),
             (Sys_listen 4 1, 0), (Sys_accept 4, - 1), (Sys_close 4, 0)] [] = []"
proof -
  have run:
    "client_or_server_socket_create (\<lambda>a. 2130706433) (- 1) ''127.0.0.1'' 5555
       (boot [3, - 1, 0, 4, 0, 0, - 1, 0] []) =
      (2, - 1, - 1,
       \<lparr>script = [], names = [],
        trace = [(Sys_socket, 3),
                 (Sys_connect 3 \<lparr>sin_family = 2, sin_port = 5555, sin_addr = 2130706433\<rparr>, - 1),
                 (Sys_close 3, 0), (Sys_socket, 4),
                 (Sys_bind 4 \<lparr>sin_family = 2, sin_port = 5555, sin_addr = 2130706433\<rparr>, 0),
                 (Sys_listen 4 1, 0), (Sys_accept 4, - 1), (Sys_close 4, 0)]\<rparr>)"
    by (simp add: resolver_defs Let_def next_result_def AF_INET_def htons_def)
  have nz: "(2::int) \<noteq> 0" by simp
  show ?thesis using resolver_failure_cleanup [OF run nz] run by (simp add: failed_def)
qed


section \<open>Source and sink of the two loops\<close>

text \<open>
  C2. For every value of the three descriptors, the thread functions choose their call
  as the table of the design states: the upload loop reads the stdin FIFO when the
  stdin FIFO and the socket are both active and the terminal otherwise, and writes to
  the socket when both are active, else to the stdout FIFO if active, else to the socket
  if active, else to the terminal; the download loop reads the socket if active, else
  the stdin FIFO if active, and otherwise makes no read and the routine returns at once
  without an event; it writes to the stdout FIFO when the stdout FIFO and the socket are
  both active and to the terminal otherwise.
\<close>

theorem thread_endpoints_match_table:
  "stdin_thread_read g =
     read_call g (spec_upload_source (stdin_fifo g \<noteq> - 1) (stdout_fifo g \<noteq> - 1) (sockfd g \<noteq> - 1)) \<and>
   stdin_thread_write g =
     write_call g (spec_upload_sink (stdin_fifo g \<noteq> - 1) (stdout_fifo g \<noteq> - 1) (sockfd g \<noteq> - 1)) \<and>
   stdout_thread_read g =
     map_option (read_call g)
       (spec_download_source (stdin_fifo g \<noteq> - 1) (stdout_fifo g \<noteq> - 1) (sockfd g \<noteq> - 1)) \<and>
   stdout_thread_write g =
     write_call g (spec_download_sink (stdin_fifo g \<noteq> - 1) (stdout_fifo g \<noteq> - 1) (sockfd g \<noteq> - 1)) \<and>
   (spec_download_source (stdin_fifo g \<noteq> - 1) (stdout_fifo g \<noteq> - 1) (sockfd g \<noteq> - 1) = None
      \<longrightarrow> stdout_thread_read g = None \<and> stdout_routine g reads = Some (g, []))"
  by (simp add: stdin_thread_read_def stdin_thread_write_def stdout_thread_read_def
      stdout_thread_write_def spec_upload_source_def spec_upload_sink_def spec_download_source_def
      spec_download_sink_def stdout_routine_def)

theorem thread_endpoints_match_table_witness:
  "spec_download_source False True False = None \<and>
   stdout_routine
     \<lparr>stdin_fifo = - 1, stdout_fifo = 5, sockfd = - 1, servfd = - 1, fifo_reverse = False,
      stdin_running = False, stdout_running = False\<rparr> (\<lambda>i. 7) =
   Some (\<lparr>stdin_fifo = - 1, stdout_fifo = 5, sockfd = - 1, servfd = - 1, fifo_reverse = False,
      stdin_running = False, stdout_running = False\<rparr>, []) \<and>
   stdin_thread_write
     \<lparr>stdin_fifo = - 1, stdout_fifo = 5, sockfd = - 1, servfd = - 1, fifo_reverse = False,
      stdin_running = False, stdout_running = False\<rparr> = Buffer_write 5"
  using thread_endpoints_match_table
    [of "\<lparr>stdin_fifo = - 1, stdout_fifo = 5, sockfd = - 1, servfd = - 1, fifo_reverse = False,
      stdin_running = False, stdout_running = False\<rparr>" "\<lambda>i. 7"]
  by (simp add: spec_download_source_def spec_upload_sink_def)

section \<open>The exit status\<close>

text \<open>
  C8. \<open>main\<close> returns \<open>0\<close> on every path: whatever the arguments, the globals, the
  kernel's answers and the functions \<open>main\<close> calls do, and so also when
  \<open>try_socket_create\<close> reports a failure or \<open>stdin_stdout_fifo_open\<close> returns a nonzero
  status.
\<close>

theorem main_exit_status_zero:
  "fst (main ext a g k) = 0"
  by (simp add: main_def Let_def split: prod.split)

theorem main_exit_status_zero_witness:
  "fst (try_socket_create
          \<lparr>libc_inet_addr = (\<lambda>a. 2130706433), DEFAULT_ADDRESS = ''127.0.0.1'', DEFAULT_PORT = 5555,
           stdin_stdout_fifo_open = (\<lambda>fi pi fo po rev. (0, fi, fo)),
           stdin_stdout_thread_start = (\<lambda>w. w),
           stdin_fifo_close = (\<lambda>fd. - 1), stdout_fifo_close = (\<lambda>fd. - 1)\<rparr>
          \<lparr>args_stdin_path = None, args_stdout_path = None, args_address = None, args_port = 6000\<rparr>
          \<lparr>stdin_fifo = - 1, stdout_fifo = - 1, sockfd = - 1, servfd = - 1, fifo_reverse = False,
           stdin_running = False, stdout_running = False\<rparr>
          (boot [] [])) = 1 \<and>
   fst (main
          \<lparr>libc_inet_addr = (\<lambda>a. 2130706433), DEFAULT_ADDRESS = ''127.0.0.1'', DEFAULT_PORT = 5555,
           stdin_stdout_fifo_open = (\<lambda>fi pi fo po rev. (0, fi, fo)),
           stdin_stdout_thread_start = (\<lambda>w. w),
           stdin_fifo_close = (\<lambda>fd. - 1), stdout_fifo_close = (\<lambda>fd. - 1)\<rparr>
          \<lparr>args_stdin_path = None, args_stdout_path = None, args_address = None, args_port = 6000\<rparr>
          \<lparr>stdin_fifo = - 1, stdout_fifo = - 1, sockfd = - 1, servfd = - 1, fifo_reverse = False,
           stdin_running = False, stdout_running = False\<rparr>
          (boot [] [])) = 0"
  using main_exit_status_zero
    [of "\<lparr>libc_inet_addr = (\<lambda>a. 2130706433), DEFAULT_ADDRESS = ''127.0.0.1'', DEFAULT_PORT = 5555,
           stdin_stdout_fifo_open = (\<lambda>fi pi fo po rev. (0, fi, fo)),
           stdin_stdout_thread_start = (\<lambda>w. w),
           stdin_fifo_close = (\<lambda>fd. - 1), stdout_fifo_close = (\<lambda>fd. - 1)\<rparr>"
        "\<lparr>args_stdin_path = None, args_stdout_path = None, args_address = None, args_port = 6000\<rparr>"
        "\<lparr>stdin_fifo = - 1, stdout_fifo = - 1, sockfd = - 1, servfd = - 1, fifo_reverse = False,
           stdin_running = False, stdout_running = False\<rparr>"
        "boot [] []"]
  by (simp add: try_socket_create_def resolver_defs Let_def next_result_def)

section \<open>Reading one line from the socket\<close>

declare socket_read_loop.simps [simp del] socket_write_loop.simps [simp del]

text \<open>
  The loop stores the bytes it receives one after the other as long as none is a
  newline and the bound is not reached.
\<close>

lemma read_loop_bytes:
  "10 \<notin> set xs \<Longrightarrow> index + length xs \<le> sz \<Longrightarrow> sz \<le> length buffer \<Longrightarrow> symbol \<noteq> 10 \<Longrightarrow>
   inbox c = map Recv_byte xs @ es \<Longrightarrow>
   socket_read_loop c buffer sz index symbol =
   socket_read_loop (c\<lparr>inbox := es\<rparr>) (take index buffer @ xs @ drop (index + length xs) buffer) sz
     (index + length xs) (if xs = [] then symbol else last xs)"
proof (induction xs arbitrary: c buffer index symbol)
  case Nil
  then have "c\<lparr>inbox := es\<rparr> = c" by (cases c) simp
  then show ?case by simp
next
  case (Cons x xs)
  have lt: "index < length buffer" using Cons.prems by simp
  have step: "socket_read_loop c buffer sz index symbol =
        socket_read_loop (c\<lparr>inbox := map Recv_byte xs @ es\<rparr>) (buffer[index := x]) sz (Suc index) x"
    using Cons.prems by (subst socket_read_loop.simps) (simp add: recv_def)
  have ih: "socket_read_loop (c\<lparr>inbox := map Recv_byte xs @ es\<rparr>) (buffer[index := x]) sz (Suc index) x =
      socket_read_loop (c\<lparr>inbox := es\<rparr>)
        (take (Suc index) (buffer[index := x]) @ xs @ drop (Suc index + length xs) (buffer[index := x])) sz
        (Suc index + length xs) (if xs = [] then x else last xs)"
    using Cons.IH [of "Suc index" "buffer[index := x]" x "c\<lparr>inbox := map Recv_byte xs @ es\<rparr>"] Cons.prems
    by simp
  have b1: "take (Suc index) (buffer[index := x]) = take index buffer @ [x]"
    using lt by (simp add: take_Suc_conv_app_nth)
  have b2: "drop (Suc index + length xs) (buffer[index := x]) = drop (Suc index + length xs) buffer"
    by simp
  show ?case unfolding step ih b1 b2 by simp
qed

lemma read_loop_stop:
  "\<not> (index < sz \<and> symbol \<noteq> 10) \<Longrightarrow> socket_read_loop c buffer sz index symbol = (int index, buffer, c)"
  by (subst socket_read_loop.simps) auto

lemma read_loop_eof:
  "index < sz \<Longrightarrow> symbol \<noteq> 10 \<Longrightarrow> inbox c = [] \<Longrightarrow>
   socket_read_loop c buffer sz index symbol = (0, buffer[index := symbol], c)"
  by (subst socket_read_loop.simps) (simp add: recv_def)

lemma read_loop_error:
  "index < sz \<Longrightarrow> symbol \<noteq> 10 \<Longrightarrow> inbox c = Recv_error # es \<Longrightarrow>
   socket_read_loop c buffer sz index symbol = (- 1, buffer, c\<lparr>inbox := es\<rparr>)"
  by (subst socket_read_loop.simps) (simp add: recv_def)

lemma read_loop_bounds:
  "index \<le> sz \<Longrightarrow> socket_read_loop c buffer sz index symbol = (n, buffer', c') \<Longrightarrow>
   - 1 \<le> n \<and> n \<le> int sz \<and> length buffer' = length buffer \<and>
   (\<exists>m. m \<le> sz - index \<and> inbox c' = drop m (inbox c)) \<and>
   send_script c' = send_script c \<and> outbox c' = outbox c"
proof (induction "inbox c" arbitrary: c buffer index symbol)
  case Nil
  show ?case
  proof (cases "index < sz \<and> symbol \<noteq> 10")
    case False
    then have "socket_read_loop c buffer sz index symbol = (int index, buffer, c)"
      by (intro read_loop_stop) auto
    then show ?thesis using Nil.prems by (auto intro: exI[of _ 0])
  next
    case True
    then have "socket_read_loop c buffer sz index symbol = (0, buffer[index := symbol], c)"
      using Nil.hyps by (simp add: read_loop_eof)
    then show ?thesis using Nil.prems by (auto intro: exI[of _ 0])
  qed
next
  case (Cons e es)
  show ?case
  proof (cases "index < sz \<and> symbol \<noteq> 10")
    case False
    then have "socket_read_loop c buffer sz index symbol = (int index, buffer, c)"
      by (intro read_loop_stop) auto
    then show ?thesis using Cons.prems by (auto intro: exI[of _ 0])
  next
    case True
    show ?thesis
    proof (cases e)
      case Recv_error
      then have "socket_read_loop c buffer sz index symbol = (- 1, buffer, c\<lparr>inbox := es\<rparr>)"
        using True Cons.hyps(2) by (simp add: read_loop_error)
      moreover have "inbox c = e # es" using Cons.hyps(2) by simp
      ultimately show ?thesis using Cons.prems True by (auto intro!: exI[of _ 1])
    next
      case (Recv_byte b)
      have ib: "inbox c = Recv_byte b # es" using Cons.hyps(2) Recv_byte by simp
      have step: "socket_read_loop c buffer sz index symbol =
         socket_read_loop (c\<lparr>inbox := es\<rparr>) (buffer[index := b]) sz (Suc index) b"
        using True ib by (subst socket_read_loop.simps) (simp add: recv_def)
      have "- 1 \<le> n \<and> n \<le> int sz \<and> length buffer' = length (buffer[index := b]) \<and>
          (\<exists>m. m \<le> sz - Suc index \<and> inbox c' = drop m (inbox (c\<lparr>inbox := es\<rparr>))) \<and>
          send_script c' = send_script (c\<lparr>inbox := es\<rparr>) \<and> outbox c' = outbox (c\<lparr>inbox := es\<rparr>)"
        using True Cons.prems step by (intro Cons.hyps(1)) auto
      then obtain m where
         m: "- 1 \<le> n" "n \<le> int sz" "length buffer' = length buffer" "m \<le> sz - Suc index"
            "inbox c' = drop m es" "send_script c' = send_script c" "outbox c' = outbox c"
        by auto
      have sm: "Suc m \<le> sz - index" "inbox c' = drop (Suc m) (inbox c)" using m True ib by auto
      have "\<exists>m. m \<le> sz - index \<and> inbox c' = drop m (inbox c)"
        using sm by (intro exI[of _ "Suc m"]) simp
      then show ?thesis using m by simp
    qed
  qed
qed

lemma socket_read_newline:
  assumes "sz \<le> length buffer" "10 \<notin> set xs" "length xs < sz"
    "inbox c = map Recv_byte (xs @ [10]) @ es"
  shows "socket_read c buffer sz =
    (int (length xs) + 1, xs @ 10 # drop (Suc (length xs)) buffer, c\<lparr>inbox := es\<rparr>)"
proof -
  let ?sym = "if xs = [] then (0::byte) else last xs"
  let ?c1 = "c\<lparr>inbox := Recv_byte 10 # es\<rparr>"
  let ?b1 = "take 0 buffer @ xs @ drop (0 + length xs) buffer"
  have sym: "?sym \<noteq> 10" using assms(2) by (auto dest: last_in_set)
  have bytes: "socket_read_loop c buffer sz 0 0 = socket_read_loop ?c1 ?b1 sz (0 + length xs) ?sym"
    using assms by (intro read_loop_bytes) auto
  have one: "socket_read_loop ?c1 ?b1 sz (0 + length xs) ?sym =
      socket_read_loop (c\<lparr>inbox := es\<rparr>) (?b1[length xs := 10]) sz (Suc (length xs)) 10"
    using assms(3) sym by (subst socket_read_loop.simps) (simp add: recv_def)
  have stop: "socket_read_loop (c\<lparr>inbox := es\<rparr>) (?b1[length xs := 10]) sz (Suc (length xs)) 10 =
      (int (Suc (length xs)), ?b1[length xs := 10], c\<lparr>inbox := es\<rparr>)"
    using read_loop_stop [of "Suc (length xs)" sz 10] by simp
  have "drop (length xs) buffer = buffer ! length xs # drop (Suc (length xs)) buffer"
    using assms(1,3) by (simp add: Cons_nth_drop_Suc)
  then have buf: "?b1[length xs := 10] = xs @ 10 # drop (Suc (length xs)) buffer"
    by (simp add: list_update_append)
  have "socket_read c buffer sz = socket_read_loop c buffer sz 0 0" by (simp add: socket_read_def)
  also note bytes
  also note one
  also note stop
  finally show ?thesis unfolding buf by simp
qed

lemma socket_read_full:
  assumes "sz \<le> length buffer" "10 \<notin> set xs" "length xs = sz" "inbox c = map Recv_byte xs @ es"
  shows "socket_read c buffer sz = (int sz, xs @ drop sz buffer, c\<lparr>inbox := es\<rparr>)"
proof -
  let ?sym = "if xs = [] then (0::byte) else last xs"
  let ?b1 = "take 0 buffer @ xs @ drop (0 + length xs) buffer"
  have bytes: "socket_read_loop c buffer sz 0 0 =
      socket_read_loop (c\<lparr>inbox := es\<rparr>) ?b1 sz (0 + length xs) ?sym"
    using assms by (intro read_loop_bytes) auto
  have stop: "socket_read_loop (c\<lparr>inbox := es\<rparr>) ?b1 sz (0 + length xs) ?sym =
      (int (0 + length xs), ?b1, c\<lparr>inbox := es\<rparr>)"
    using assms(3) by (intro read_loop_stop) simp
  have "socket_read c buffer sz = socket_read_loop c buffer sz 0 0" by (simp add: socket_read_def)
  also note bytes
  also note stop
  finally show ?thesis using assms(3) by simp
qed

lemma socket_read_end:
  assumes "sz \<le> length buffer" "10 \<notin> set xs" "length xs < sz"
  shows "inbox c = map Recv_byte xs \<Longrightarrow> fst (socket_read c buffer sz) = 0"
    and "inbox c = map Recv_byte xs @ Recv_error # es \<Longrightarrow> fst (socket_read c buffer sz) = - 1"
proof -
  let ?sym = "if xs = [] then (0::byte) else last xs"
  let ?b1 = "take 0 buffer @ xs @ drop (0 + length xs) buffer"
  have sym: "?sym \<noteq> 10" using assms(2) by (auto dest: last_in_set)
  {
    assume i: "inbox c = map Recv_byte xs"
    have bytes: "socket_read_loop c buffer sz 0 0 =
        socket_read_loop (c\<lparr>inbox := []\<rparr>) ?b1 sz (0 + length xs) ?sym"
      using assms i by (intro read_loop_bytes) auto
    have "socket_read_loop (c\<lparr>inbox := []\<rparr>) ?b1 sz (0 + length xs) ?sym =
        (0, ?b1[0 + length xs := ?sym], c\<lparr>inbox := []\<rparr>)"
      using assms(3) sym by (intro read_loop_eof) auto
    then show "fst (socket_read c buffer sz) = 0" unfolding socket_read_def bytes by simp
  }
  {
    assume i: "inbox c = map Recv_byte xs @ Recv_error # es"
    have bytes: "socket_read_loop c buffer sz 0 0 =
        socket_read_loop (c\<lparr>inbox := Recv_error # es\<rparr>) ?b1 sz (0 + length xs) ?sym"
      using assms i by (intro read_loop_bytes) auto
    have "socket_read_loop (c\<lparr>inbox := Recv_error # es\<rparr>) ?b1 sz (0 + length xs) ?sym =
        (- 1, ?b1, c\<lparr>inbox := Recv_error # es, inbox := es\<rparr>)"
      using assms(3) sym by (intro read_loop_error) auto
    then show "fst (socket_read c buffer sz) = - 1" unfolding socket_read_def bytes by simp
  }
qed

text \<open>
  C3, as the code has it. A null byte does not end the read: on the stream
  \<open>a, NUL, b, newline, c\<close> one call with the loops' buffer and bound returns \<open>4\<close>, having
  consumed and stored the four bytes up to the newline.
\<close>

theorem socket_read_passes_null:
  "socket_read \<lparr>inbox = map Recv_byte [97, 0, 98, 10, 99], send_script = [], outbox = []\<rparr>
     (replicate 1024 0) 1023 =
   (4, [97, 0, 98, 10] @ replicate 1020 0, \<lparr>inbox = [Recv_byte 99], send_script = [], outbox = []\<rparr>)"
  using socket_read_newline [of 1023 "replicate 1024 0" "[97, 0, 98]"
      "\<lparr>inbox = map Recv_byte [97, 0, 98, 10, 99], send_script = [], outbox = []\<rparr>" "[Recv_byte 99]"]
  by simp


text \<open>
  C3, amended. For every input stream, a single \<open>socket_read\<close> (into a buffer that holds
  at least \<open>size\<close> bytes) stops consuming input at whichever of a newline byte or the size
  bound comes first; a null byte does not stop it and is stored like any other byte. It
  then returns the number of bytes stored, the newline included. When the stream ends
  before that it returns \<open>0\<close>, when a \<open>recv\<close> fails before that it returns \<open>-1\<close>. In every
  case the value returned is at most \<open>size\<close> (\<open>1023\<close> in the loops), at most \<open>size\<close> events
  of the stream are consumed, and the buffer keeps its length.
\<close>

theorem socket_read_line:
  assumes "sz \<le> length buffer"
  shows "(10 \<notin> set xs \<and> length xs < sz \<and> inbox c = map Recv_byte (xs @ [10]) @ es \<longrightarrow>
            socket_read c buffer sz =
              (int (length xs) + 1, xs @ 10 # drop (Suc (length xs)) buffer, c\<lparr>inbox := es\<rparr>)) \<and>
         (10 \<notin> set xs \<and> length xs = sz \<and> inbox c = map Recv_byte xs @ es \<longrightarrow>
            socket_read c buffer sz = (int sz, xs @ drop sz buffer, c\<lparr>inbox := es\<rparr>)) \<and>
         (10 \<notin> set xs \<and> length xs < sz \<and> inbox c = map Recv_byte xs \<longrightarrow>
            fst (socket_read c buffer sz) = 0) \<and>
         (10 \<notin> set xs \<and> length xs < sz \<and> inbox c = map Recv_byte xs @ Recv_error # es \<longrightarrow>
            fst (socket_read c buffer sz) = - 1) \<and>
         (case socket_read c buffer sz of (n, buffer', c') \<Rightarrow>
            - 1 \<le> n \<and> n \<le> int sz \<and> length buffer' = length buffer \<and>
            (\<exists>m. m \<le> sz \<and> inbox c' = drop m (inbox c)))"
proof (intro conjI impI)
  show "case socket_read c buffer sz of (n, buffer', c') \<Rightarrow>
            - 1 \<le> n \<and> n \<le> int sz \<and> length buffer' = length buffer \<and>
            (\<exists>m. m \<le> sz \<and> inbox c' = drop m (inbox c))"
  proof (cases "socket_read c buffer sz")
    case (fields n buffer' c')
    then have "socket_read_loop c buffer sz 0 0 = (n, buffer', c')" by (simp add: socket_read_def)
    from read_loop_bounds [OF _ this] show ?thesis using fields by auto
  qed
qed (use assms in \<open>auto simp: socket_read_newline socket_read_full socket_read_end\<close>)


theorem socket_read_line_witness:
  "socket_read \<lparr>inbox = map Recv_byte [104, 105, 10, 120], send_script = [], outbox = []\<rparr>
     (replicate 1024 0) 1023 =
   (3, [104, 105, 10] @ replicate 1021 0,
    \<lparr>inbox = [Recv_byte 120], send_script = [], outbox = []\<rparr>) \<and>
   socket_read \<lparr>inbox = map Recv_byte [104, 105, 106, 107], send_script = [], outbox = []\<rparr>
     (replicate 4 0) 3 =
   (3, [104, 105, 106, 0], \<lparr>inbox = [Recv_byte 107], send_script = [], outbox = []\<rparr>)"
proof -
  have h1: "(1023::nat) \<le> length (replicate 1024 (0::byte))" by simp
  have h2: "(3::nat) \<le> length (replicate 4 (0::byte))" by simp
  have a: "10 \<notin> set [104, 105::byte] \<and> length [104, 105::byte] < 1023 \<and>
      inbox \<lparr>inbox = map Recv_byte [104, 105, 10, 120], send_script = [], outbox = []\<rparr> =
        map Recv_byte ([104, 105] @ [10]) @ [Recv_byte 120]"
    by simp
  have b: "10 \<notin> set [104, 105, 106::byte] \<and> length [104, 105, 106::byte] = 3 \<and>
      inbox \<lparr>inbox = map Recv_byte [104, 105, 106, 107], send_script = [], outbox = []\<rparr> =
        map Recv_byte [104, 105, 106] @ [Recv_byte 107]"
    by simp
  show ?thesis
    using socket_read_line [OF h1, where xs = "[104, 105]" and es = "[Recv_byte 120]" and
        c = "\<lparr>inbox = map Recv_byte [104, 105, 10, 120], send_script = [], outbox = []\<rparr>"] a
      socket_read_line [OF h2, where xs = "[104, 105, 106]" and es = "[Recv_byte 107]" and
        c = "\<lparr>inbox = map Recv_byte [104, 105, 106, 107], send_script = [], outbox = []\<rparr>"] b
    by (simp add: numeral_3_eq_3)
qed

section \<open>Writing one line to the socket\<close>

lemma send_ok:
  "sends_succeed (Suc n) c \<Longrightarrow>
   send c b = (1, c\<lparr>send_script := tl (send_script c), outbox := outbox c @ [b]\<rparr>)"
  by (cases c) (auto simp: send_def sends_succeed_def split: list.splits send_result.splits)

lemma sends_succeed_tl:
  "sends_succeed (Suc n) c \<Longrightarrow> sends_succeed n (c\<lparr>send_script := tl (send_script c), outbox := ob\<rparr>)"
  by (cases "send_script c") (auto simp: sends_succeed_def)

lemma write_loop_stop: "sz \<le> index \<Longrightarrow> socket_write_loop c buffer sz index = (int index, c)"
  by (subst socket_write_loop.simps) simp

lemma write_loop_terminator:
  "index < sz \<Longrightarrow> terminator (buffer ! index) \<Longrightarrow> sends_succeed (Suc n) c \<Longrightarrow>
   socket_write_loop c buffer sz index =
     (int index, c\<lparr>send_script := tl (send_script c), outbox := outbox c @ [buffer ! index]\<rparr>)"
  by (subst socket_write_loop.simps) (simp add: send_ok [of n] terminator_def)

lemma write_loop_error:
  "index < sz \<Longrightarrow> send_script c = Send_error # rs \<Longrightarrow>
   socket_write_loop c buffer sz index = (- 1, c\<lparr>send_script := rs\<rparr>)"
  by (subst socket_write_loop.simps) (simp add: send_def)

lemma write_loop_payload:
  "index + d \<le> sz \<Longrightarrow> \<forall>j. index \<le> j \<and> j < index + d \<longrightarrow> \<not> terminator (buffer ! j) \<Longrightarrow>
   sends_succeed d c \<Longrightarrow>
   socket_write_loop c buffer sz index =
     socket_write_loop
       (c\<lparr>send_script := drop d (send_script c),
          outbox := outbox c @ map ((!) buffer) [index..<index + d]\<rparr>) buffer sz (index + d)"
proof (induction d arbitrary: index c)
  case 0
  have "c\<lparr>send_script := send_script c, outbox := outbox c\<rparr> = c" by (cases c) simp
  then show ?case by simp
next
  case (Suc d)
  let ?c1 = "c\<lparr>send_script := tl (send_script c), outbox := outbox c @ [buffer ! index]\<rparr>"
  have nt: "\<not> terminator (buffer ! index)" using Suc.prems(2) by simp
  have step: "socket_write_loop c buffer sz index = socket_write_loop ?c1 buffer sz (Suc index)"
    using Suc.prems(1) nt send_ok [OF Suc.prems(3)]
    by (subst socket_write_loop.simps) (simp add: terminator_def)
  have ih: "socket_write_loop ?c1 buffer sz (Suc index) =
     socket_write_loop
       (?c1\<lparr>send_script := drop d (send_script ?c1),
          outbox := outbox ?c1 @ map ((!) buffer) [Suc index..<Suc index + d]\<rparr>) buffer sz (Suc index + d)"
  proof (rule Suc.IH)
    show "Suc index + d \<le> sz" using Suc.prems(1) by simp
    show "\<forall>j. Suc index \<le> j \<and> j < Suc index + d \<longrightarrow> \<not> terminator (buffer ! j)"
      using Suc.prems(2) by simp
    show "sends_succeed d ?c1" using Suc.prems(3) by (rule sends_succeed_tl)
  qed
  have u: "map ((!) buffer) [index..<index + Suc d] =
      buffer ! index # map ((!) buffer) [Suc index..<Suc index + d]"
    using upt_conv_Cons [of index "index + Suc d"] by simp
  have dr: "drop (Suc d) (send_script c) = drop d (tl (send_script c))"
    by (simp add: drop_Suc)
  show ?case unfolding step ih u dr by simp
qed

lemma map_nth_take: "k \<le> length xs \<Longrightarrow> map ((!) xs) [0..<k] = take k xs"
  by (simp add: list_eq_iff_nth_eq)

lemma sends_succeed_mono:
  assumes "sends_succeed (Suc k) c"
  shows "sends_succeed k c"
proof -
  have "set (take k (send_script c)) \<subseteq> set (take (Suc k) (send_script c))"
    by (rule set_take_subset_set_take) simp
  then show ?thesis using assms by (auto simp: sends_succeed_def list_all_iff)
qed

lemma sends_succeed_drop:
  assumes "sends_succeed (Suc k) c"
  shows "sends_succeed (Suc 0) (c\<lparr>send_script := drop k (send_script c), outbox := ob\<rparr>)"
proof -
  have "take (Suc 0) (drop k (send_script c)) = drop k (take (Suc k) (send_script c))"
    by (simp add: drop_take)
  then have "set (take (Suc 0) (drop k (send_script c))) \<subseteq> set (take (Suc k) (send_script c))"
    by (simp add: set_drop_subset)
  then show ?thesis using assms by (auto simp: sends_succeed_def list_all_iff)
qed

lemma socket_write_terminated:
  assumes "sz \<le> length buffer" "k < sz" "terminator (buffer ! k)" "\<forall>j<k. \<not> terminator (buffer ! j)"
    "sends_succeed (Suc k) c"
  shows "socket_write c buffer sz =
    (int k, c\<lparr>send_script := drop (Suc k) (send_script c), outbox := outbox c @ take (Suc k) buffer\<rparr>)"
proof -
  let ?c1 = "c\<lparr>send_script := drop k (send_script c), outbox := outbox c @ map ((!) buffer) [0..<0 + k]\<rparr>"
  have p: "socket_write_loop c buffer sz 0 = socket_write_loop ?c1 buffer sz (0 + k)"
  proof (rule write_loop_payload)
    show "0 + k \<le> sz" using assms(2) by simp
    show "\<forall>j. 0 \<le> j \<and> j < 0 + k \<longrightarrow> \<not> terminator (buffer ! j)" using assms(4) by simp
    show "sends_succeed k c" using assms(5) by (rule sends_succeed_mono)
  qed
  have s1: "sends_succeed (Suc 0) ?c1"
    using assms(5) by (rule sends_succeed_drop)
  have t: "socket_write_loop ?c1 buffer sz k =
      (int k, ?c1\<lparr>send_script := tl (send_script ?c1), outbox := outbox ?c1 @ [buffer ! k]\<rparr>)"
    using assms(2,3) s1 by (rule write_loop_terminator)
  have "take (Suc k) buffer = map ((!) buffer) [0..<k] @ [buffer ! k]"
    using assms by (simp add: take_Suc_conv_app_nth map_nth_take)
  then show ?thesis using p t by (simp add: socket_write_def drop_Suc tl_drop)
qed

lemma socket_write_full:
  assumes "sz \<le> length buffer" "\<forall>j. j < sz \<longrightarrow> \<not> terminator (buffer ! j)" "sends_succeed sz c"
  shows "socket_write c buffer sz =
    (int sz, c\<lparr>send_script := drop sz (send_script c), outbox := outbox c @ take sz buffer\<rparr>)"
proof -
  let ?c1 = "c\<lparr>send_script := drop sz (send_script c), outbox := outbox c @ map ((!) buffer) [0..<0 + sz]\<rparr>"
  have "socket_write c buffer sz = socket_write_loop c buffer sz 0" by (simp add: socket_write_def)
  also have "\<dots> = socket_write_loop ?c1 buffer sz (0 + sz)"
  proof (rule write_loop_payload)
    show "0 + sz \<le> sz" by simp
    show "\<forall>j. 0 \<le> j \<and> j < 0 + sz \<longrightarrow> \<not> terminator (buffer ! j)" using assms(2) by simp
    show "sends_succeed sz c" by (rule assms(3))
  qed
  also have "\<dots> = (int (0 + sz), ?c1)" by (rule write_loop_stop) simp
  finally show ?thesis using assms(1) by (simp add: map_nth_take)
qed

lemma sends_succeed_replicate:
  "send_script c = replicate m Send_one @ rs \<Longrightarrow> sends_succeed m c"
  by (simp add: sends_succeed_def list_all_iff)

lemma socket_write_send_error:
  assumes "sz \<le> length buffer" "m < sz" "\<forall>j<m. \<not> terminator (buffer ! j)"
    "send_script c = replicate m Send_one @ Send_error # rs"
  shows "socket_write c buffer sz =
    (- 1, c\<lparr>send_script := rs, outbox := outbox c @ take m buffer\<rparr>)"
proof -
  let ?c1 = "c\<lparr>send_script := drop m (send_script c), outbox := outbox c @ map ((!) buffer) [0..<0 + m]\<rparr>"
  have "socket_write c buffer sz = socket_write_loop c buffer sz 0" by (simp add: socket_write_def)
  also have "\<dots> = socket_write_loop ?c1 buffer sz (0 + m)"
  proof (rule write_loop_payload)
    show "0 + m \<le> sz" using assms(2) by simp
    show "\<forall>j. 0 \<le> j \<and> j < 0 + m \<longrightarrow> \<not> terminator (buffer ! j)" using assms(3) by simp
    show "sends_succeed m c" using assms(4) by (rule sends_succeed_replicate)
  qed
  also have "\<dots> = (- 1, ?c1\<lparr>send_script := rs\<rparr>)"
  proof (rule write_loop_error)
    show "0 + m < sz" using assms(2) by simp
    show "send_script ?c1 = Send_error # rs" using assms(4) by simp
  qed
  finally show ?thesis using assms(1,2) by (simp add: map_nth_take)
qed

text \<open>
  C4, as the code has it. The buffer of the loops filled with \<open>1023\<close> bytes that are
  neither null nor newline, written with the bound \<open>1023\<close>: all \<open>1023\<close> bytes are sent,
  the loop ends at the bound, and no byte on the wire is a null or a newline. The unit
  on the wire is not a terminated line.
\<close>

theorem socket_write_full_chunk_unterminated:
  "socket_write \<lparr>inbox = [], send_script = [], outbox = []\<rparr> (replicate 1023 97 @ [0]) 1023 =
     (1023, \<lparr>inbox = [], send_script = [], outbox = replicate 1023 97\<rparr>) \<and>
   \<not> list_ex terminator (replicate 1023 97)"
proof -
  have h1: "1023 \<le> length (replicate 1023 (97::byte) @ [0])" by simp
  have h2: "\<forall>j. j < 1023 \<longrightarrow> \<not> terminator ((replicate 1023 (97::byte) @ [0]) ! j)"
    by (simp add: nth_append terminator_def)
  have h3: "sends_succeed 1023 \<lparr>inbox = [], send_script = [], outbox = []\<rparr>"
    by (simp add: sends_succeed_def)
  show ?thesis
    using socket_write_full [OF h1 h2 h3] by (simp add: list_ex_iff terminator_def)
qed

text \<open>
  C4, amended. \<open>socket_write\<close> (from a buffer that holds at least \<open>size\<close> bytes) sends
  the bytes of the buffer in order, one \<open>send\<close> call each. When a null or newline byte
  lies within the first \<open>size\<close> bytes and the sends succeed, it stops at the first one,
  at index \<open>k\<close>, and the bytes transmitted are exactly the first \<open>k + 1\<close> bytes of the
  buffer: the terminator is transmitted and is the last byte on the wire. When no null
  or newline lies within the first \<open>size\<close> bytes and the sends succeed, it sends exactly
  these \<open>size\<close> bytes, returns \<open>size\<close>, and no byte on the wire is a terminator. When the
  sends succeed \<open>m\<close> times and then one returns \<open>-1\<close>, before any terminator and within
  \<open>size\<close>, the result is \<open>-1\<close> and exactly the first \<open>m\<close> bytes were transmitted.
\<close>

theorem socket_write_line:
  assumes "sz \<le> length buffer"
  shows "(k < sz \<and> terminator (buffer ! k) \<and> (\<forall>j<k. \<not> terminator (buffer ! j)) \<and>
          sends_succeed (Suc k) c \<longrightarrow>
            outbox (snd (socket_write c buffer sz)) = outbox c @ take (Suc k) buffer \<and>
            terminator (last (outbox (snd (socket_write c buffer sz))))) \<and>
         ((\<forall>j. j < sz \<longrightarrow> \<not> terminator (buffer ! j)) \<and> sends_succeed sz c \<longrightarrow>
            socket_write c buffer sz =
              (int sz, c\<lparr>send_script := drop sz (send_script c),
                         outbox := outbox c @ take sz buffer\<rparr>) \<and>
            \<not> list_ex terminator (take sz buffer)) \<and>
         (m < sz \<and> (\<forall>j<m. \<not> terminator (buffer ! j)) \<and>
          send_script c = replicate m Send_one @ Send_error # rs \<longrightarrow>
            socket_write c buffer sz =
              (- 1, c\<lparr>send_script := rs, outbox := outbox c @ take m buffer\<rparr>))"
  using assms
  by (auto simp: socket_write_terminated socket_write_full socket_write_send_error
      take_Suc_conv_app_nth list_ex_iff in_set_conv_nth)


theorem socket_write_line_witness:
  "outbox (snd (socket_write \<lparr>inbox = [], send_script = [], outbox = []\<rparr> [104, 105, 10, 0] 3)) =
     [104, 105, 10] \<and>
   socket_write \<lparr>inbox = [], send_script = [Send_one, Send_error], outbox = []\<rparr> [104, 105, 10, 0] 3 =
     (- 1, \<lparr>inbox = [], send_script = [], outbox = [104]\<rparr>)"
proof -
  have h1: "(3::nat) \<le> length [104, 105, 10, 0::byte]" by simp
  have t: "2 < (3::nat) \<and> terminator ([104, 105, 10, 0::byte] ! 2) \<and>
      (\<forall>j<2. \<not> terminator ([104, 105, 10, 0::byte] ! j)) \<and>
      sends_succeed (Suc 2) \<lparr>inbox = [], send_script = [], outbox = []\<rparr>"
    by (auto dest!: less_2_cases simp: terminator_def sends_succeed_def)
  have e: "1 < (3::nat) \<and> (\<forall>j<1. \<not> terminator ([104, 105, 10, 0::byte] ! j)) \<and>
      send_script \<lparr>inbox = [], send_script = [Send_one, Send_error], outbox = []\<rparr> =
        replicate 1 Send_one @ Send_error # []"
    by (simp add: terminator_def)
  show ?thesis
    using socket_write_line [OF h1, where k = 2 and c = "\<lparr>inbox = [], send_script = [], outbox = []\<rparr>"] t
      socket_write_line [OF h1, where m = 1 and rs = "[]" and
          c = "\<lparr>inbox = [], send_script = [Send_one, Send_error], outbox = []\<rparr>"] e
    by simp
qed


text \<open>
  C9. When the first null or newline byte within \<open>size\<close> is at index \<open>k\<close> and the sends
  succeed, \<open>socket_write\<close> returns \<open>k\<close>, the number of bytes before the terminator, while
  it has transmitted \<open>k + 1\<close> bytes, the terminator included: the value returned is one
  less than the number of bytes sent.
\<close>

theorem socket_write_returns_terminator_index:
  assumes "sz \<le> length buffer" "k < sz" "terminator (buffer ! k)"
    "\<forall>j<k. \<not> terminator (buffer ! j)" "sends_succeed (Suc k) c"
  shows "fst (socket_write c buffer sz) = int k \<and>
         outbox (snd (socket_write c buffer sz)) = outbox c @ take (Suc k) buffer \<and>
         int (length (outbox (snd (socket_write c buffer sz)))) - int (length (outbox c)) =
           fst (socket_write c buffer sz) + 1"
  using assms by (simp add: socket_write_terminated)


theorem socket_write_returns_terminator_index_witness:
  "fst (socket_write \<lparr>inbox = [], send_script = [], outbox = []\<rparr> [104, 105, 10, 0] 3) = 2 \<and>
   outbox (snd (socket_write \<lparr>inbox = [], send_script = [], outbox = []\<rparr> [104, 105, 10, 0] 3)) =
     [104, 105, 10]"
proof -
  have h1: "(3::nat) \<le> length [104, 105, 10, 0::byte]" by simp
  have h2: "(2::nat) < 3" by simp
  have h3: "terminator ([104, 105, 10, 0::byte] ! 2)" by (simp add: terminator_def)
  have h4: "\<forall>j<2. \<not> terminator ([104, 105, 10, 0::byte] ! j)"
    by (auto dest!: less_2_cases simp: terminator_def)
  have h5: "sends_succeed (Suc 2) \<lparr>inbox = [], send_script = [], outbox = []\<rparr>"
    by (simp add: sends_succeed_def)
  show ?thesis
    using socket_write_returns_terminator_index [OF h1 h2 h3 h4 h5] by simp
qed


section \<open>A long line in the loops\<close>

lemma stdout_round_first:
  assumes len: "1023 \<le> length line"
    and nt: "\<forall>b\<in>set line. \<not> terminator b"
    and inb: "inbox c = map Recv_byte (line @ [10]) @ es"
  shows "stdout_round wr c w =
    (1023, c\<lparr>inbox := map Recv_byte (drop 1023 line @ [10]) @ es\<rparr>,
     snd (wr (take 1023 line @ [0]) 1023 w))"
proof -
  let ?xs = "take 1023 line"
  have lx: "length ?xs = 1023" using len by simp
  have nl: "10 \<notin> set ?xs" using nt by (auto simp: terminator_def dest: in_set_takeD)
  have split: "inbox c = map Recv_byte ?xs @ (map Recv_byte (drop 1023 line @ [10]) @ es)"
    unfolding inb by (simp flip: map_append append_assoc)
  have rd: "socket_read c (replicate 1024 0) 1023 =
      (int 1023, ?xs @ drop 1023 (replicate 1024 0),
       c\<lparr>inbox := map Recv_byte (drop 1023 line @ [10]) @ es\<rparr>)"
    using nl lx split by (intro socket_read_full) simp_all
  have buf: "?xs @ drop 1023 (replicate 1024 (0::byte)) = ?xs @ [0]" by simp
  show ?thesis using rd unfolding buf by (simp add: stdout_round_def split: prod.split)
qed

lemma stdout_round_rest:
  assumes len: "length rest < 1023"
    and nt: "\<forall>b\<in>set rest. \<not> terminator b"
    and inb: "inbox c = map Recv_byte (rest @ [10]) @ es"
  shows "stdout_round wr c w =
    (int (length rest) + 1, c\<lparr>inbox := es\<rparr>,
     snd (wr (rest @ 10 # replicate (1023 - length rest) 0) 1023 w))"
proof -
  have nl: "10 \<notin> set rest" using nt by (auto simp: terminator_def)
  have rd: "socket_read c (replicate 1024 0) 1023 =
      (int (length rest) + 1, rest @ 10 # drop (Suc (length rest)) (replicate 1024 0), c\<lparr>inbox := es\<rparr>)"
    using nl len inb by (intro socket_read_newline) simp_all
  have buf: "drop (Suc (length rest)) (replicate 1024 (0::byte)) = replicate (1023 - length rest) 0"
    by simp
  show ?thesis using rd unfolding buf by (simp add: stdout_round_def split: prod.split)
qed

lemma stdin_round_full:
  assumes len: "length line = 1023"
    and nt: "\<forall>b\<in>set line. \<not> terminator b"
    and rd: "rd (replicate 1024 0) 1023 s = (1023, line @ [0], s')"
    and snd: "sends_succeed 1023 d"
  shows "stdin_round rd s d =
    (1023, s', d\<lparr>send_script := drop 1023 (send_script d), outbox := outbox d @ line\<rparr>)"
proof -
  let ?buf = "line @ [0::byte]"
  have ntb: "\<forall>j. j < 1023 \<longrightarrow> \<not> terminator (?buf ! j)"
  proof (intro allI impI)
    fix j :: nat assume j: "j < 1023"
    then have "?buf ! j = line ! j" using len by (simp add: nth_append)
    moreover have "line ! j \<in> set line" using j len by (intro nth_mem) simp
    ultimately show "\<not> terminator (?buf ! j)" using nt by auto
  qed
  have wr: "socket_write d ?buf 1023 =
      (int 1023, d\<lparr>send_script := drop 1023 (send_script d),
                   outbox := outbox d @ take 1023 ?buf\<rparr>)"
    using ntb snd len by (intro socket_write_full) simp_all
  show ?thesis using rd wr len by (simp add: stdin_round_def)
qed

text \<open>
  C5, as the code has it. A line of \<open>2000\<close> bytes followed by a newline arrives on the
  socket, and \<open>buffer_write\<close> is a function that records the buffers it is given. The
  first round of the download loop hands over the first \<open>1023\<close> bytes; the second round
  hands over the other \<open>977\<close> bytes and the newline. The bytes past the boundary are not
  dropped: the line is forwarded whole, in two pieces.
\<close>

theorem stdout_rounds_forward_whole_line:
  "stdout_round (\<lambda>buffer sz w. (0, w @ [buffer]))
     \<lparr>inbox = map Recv_byte (replicate 2000 97 @ [10]), send_script = [], outbox = []\<rparr> [] =
   (1023, \<lparr>inbox = map Recv_byte (replicate 977 97 @ [10]), send_script = [], outbox = []\<rparr>,
    [replicate 1023 97 @ [0]]) \<and>
   stdout_round (\<lambda>buffer sz w. (0, w @ [buffer]))
     \<lparr>inbox = map Recv_byte (replicate 977 97 @ [10]), send_script = [], outbox = []\<rparr>
     [replicate 1023 97 @ [0]] =
   (978, \<lparr>inbox = [], send_script = [], outbox = []\<rparr>,
    [replicate 1023 97 @ [0], replicate 977 97 @ 10 # replicate 46 0])"
proof -
  have nt: "\<forall>b\<in>set (replicate n (97::byte)). \<not> terminator b" for n
    by (simp add: terminator_def)
  have a: "inbox \<lparr>inbox = map Recv_byte (replicate 2000 97 @ [10]), send_script = [], outbox = []\<rparr> =
      map Recv_byte (replicate 2000 97 @ [10]) @ []" by simp
  have b: "inbox \<lparr>inbox = map Recv_byte (replicate 977 97 @ [10]), send_script = [], outbox = []\<rparr> =
      map Recv_byte (replicate 977 97 @ [10]) @ []" by simp
  have l1: "1023 \<le> length (replicate 2000 (97::byte))" by simp
  have l2: "length (replicate 977 (97::byte)) < 1023" by simp
  show ?thesis
    using stdout_round_first [OF l1 nt a, of "\<lambda>buffer sz w. (0, w @ [buffer])" "[]"]
      stdout_round_rest [OF l2 nt b, of "\<lambda>buffer sz w. (0, w @ [buffer])" "[replicate 1023 97 @ [0]]"]
    by simp
qed

text \<open>
  C5, amended. A line is bytes that are neither null nor newline, followed by a
  newline, arriving on the socket. When the line has exactly \<open>1023\<close> bytes, one round of
  the download loop hands exactly these bytes (and the null that ends the buffer) to
  \<open>buffer_write\<close> and leaves the newline as the next byte of the socket; and one round
  of the upload loop whose \<open>buffer_read\<close> delivered these \<open>1023\<close> bytes sends exactly
  them on the socket. When the line has \<open>2000\<close> bytes, it is split at the \<open>1023\<close>-byte
  boundary and nothing is dropped: the first round hands the first \<open>1023\<close> bytes to
  \<open>buffer_write\<close>, and the next round hands over the other \<open>977\<close> bytes and the newline.
  In every round the buffer handed over has its \<open>1024\<close> bytes.
\<close>

theorem rounds_split_long_line:
  assumes nt: "\<forall>b\<in>set line. \<not> terminator b"
    and inb: "inbox c = map Recv_byte (line @ [10]) @ es"
  shows "(length line = 1023 \<longrightarrow>
            stdout_round wr c w =
              (1023, c\<lparr>inbox := Recv_byte 10 # es\<rparr>, snd (wr (line @ [0]) 1023 w))) \<and>
         (length line = 2000 \<longrightarrow>
            stdout_round wr c w =
              (1023, c\<lparr>inbox := map Recv_byte (drop 1023 line @ [10]) @ es\<rparr>,
               snd (wr (take 1023 line @ [0]) 1023 w)) \<and>
            stdout_round wr (c\<lparr>inbox := map Recv_byte (drop 1023 line @ [10]) @ es\<rparr>) w' =
              (978, c\<lparr>inbox := es\<rparr>,
               snd (wr (drop 1023 line @ 10 # replicate 46 0) 1023 w')) \<and>
            length (take 1023 line @ [0::byte]) = 1024 \<and>
            length (drop 1023 line @ 10 # replicate 46 (0::byte)) = 1024) \<and>
         (length line = 1023 \<and> rd (replicate 1024 0) 1023 s = (1023, line @ [0], s') \<and>
          sends_succeed 1023 d \<longrightarrow>
            stdin_round rd s d =
              (1023, s', d\<lparr>send_script := drop 1023 (send_script d), outbox := outbox d @ line\<rparr>))"
proof (intro conjI impI)
  assume l: "length line = 1023"
  then show "stdout_round wr c w =
      (1023, c\<lparr>inbox := Recv_byte 10 # es\<rparr>, snd (wr (line @ [0]) 1023 w))"
    using stdout_round_first [OF _ nt inb, of wr w] by simp
next
  assume l: "length line = 2000"
  then show "stdout_round wr c w =
      (1023, c\<lparr>inbox := map Recv_byte (drop 1023 line @ [10]) @ es\<rparr>,
       snd (wr (take 1023 line @ [0]) 1023 w))"
    using stdout_round_first [OF _ nt inb, of wr w] by simp
  have nt': "\<forall>b\<in>set (drop 1023 line). \<not> terminator b" using nt by (auto dest: in_set_dropD)
  have i': "inbox (c\<lparr>inbox := map Recv_byte (drop 1023 line @ [10]) @ es\<rparr>) =
      map Recv_byte (drop 1023 line @ [10]) @ es" by simp
  have l': "length (drop 1023 line) < 1023" using l by simp
  show "stdout_round wr (c\<lparr>inbox := map Recv_byte (drop 1023 line @ [10]) @ es\<rparr>) w' =
      (978, c\<lparr>inbox := es\<rparr>, snd (wr (drop 1023 line @ 10 # replicate 46 0) 1023 w'))"
    using stdout_round_rest [OF l' nt' i', of wr w'] l by simp
  show "length (take 1023 line @ [0::byte]) = 1024" using l by simp
  show "length (drop 1023 line @ 10 # replicate 46 (0::byte)) = 1024" using l by simp
next
  assume "length line = 1023 \<and> rd (replicate 1024 0) 1023 s = (1023, line @ [0], s') \<and>
          sends_succeed 1023 d"
  then show "stdin_round rd s d =
      (1023, s', d\<lparr>send_script := drop 1023 (send_script d), outbox := outbox d @ line\<rparr>)"
    using stdin_round_full [OF _ nt, of rd s s' d] by simp
qed

theorem rounds_split_long_line_witness:
  "stdout_round (\<lambda>buffer sz w. (0, w @ [buffer]))
     \<lparr>inbox = map Recv_byte (replicate 1023 97 @ [10]), send_script = [], outbox = []\<rparr> [] =
   (1023, \<lparr>inbox = [Recv_byte 10], send_script = [], outbox = []\<rparr>, [replicate 1023 97 @ [0]]) \<and>
   stdin_round (\<lambda>buffer sz s. (1023, replicate 1023 97 @ [0], s)) ()
     \<lparr>inbox = [], send_script = [], outbox = []\<rparr> =
   (1023, (), \<lparr>inbox = [], send_script = [], outbox = replicate 1023 97\<rparr>)"
proof -
  have nt: "\<forall>b\<in>set (replicate 1023 (97::byte)). \<not> terminator b"
    by (simp add: terminator_def)
  have a: "inbox \<lparr>inbox = map Recv_byte (replicate 1023 97 @ [10]), send_script = [], outbox = []\<rparr> =
      map Recv_byte (replicate 1023 97 @ [10]) @ []" by simp
  have h: "length (replicate 1023 (97::byte)) = 1023 \<and>
      (\<lambda>buffer sz s. (1023, replicate 1023 97 @ [0], s)) (replicate 1024 (0::byte)) (1023::nat) () =
        (1023::int, replicate 1023 (97::byte) @ [0], ()) \<and>
      sends_succeed 1023 \<lparr>inbox = [], send_script = [], outbox = []\<rparr>"
    by (simp add: sends_succeed_def)
  show ?thesis
    using rounds_split_long_line [OF nt a, where wr = "\<lambda>buffer sz w. (0, w @ [buffer])" and w = "[]" and
        rd = "\<lambda>buffer sz s. (1023, replicate 1023 97 @ [0], s)" and s = "()" and s' = "()" and
        d = "\<lparr>inbox = [], send_script = [], outbox = []\<rparr>"] h
    by simp
qed

section \<open>The end of a loop\<close>

lemma stdin_loop_run:
  "\<forall>j<k. 0 < reads (i + j) \<Longrightarrow> reads (i + k) \<le> 0 \<Longrightarrow>
   stdin_loop g reads i tr =
     Some (tr @ concat (map (\<lambda>j. [Ev_read (Some (stdin_thread_read g)) (reads (i + j)), Ev_write (stdin_thread_write g)]) [0..<k])
              @ [Ev_read (Some (stdin_thread_read g)) (reads (i + k))])"
proof (induction k arbitrary: i tr)
  case 0
  then show ?case by (subst stdin_loop.simps) simp
next
  case (Suc k)
  have pos: "0 < reads i" using Suc.prems(1) by force
  have a: "\<forall>j<k. 0 < reads (Suc i + j)" using Suc.prems(1) by force
  have b: "reads (Suc i + k) \<le> 0" using Suc.prems(2) by simp
  have shift: "map (\<lambda>j. [Ev_read (Some (stdin_thread_read g)) (reads (i + j)), Ev_write (stdin_thread_write g)]) [0..<Suc k]
     = [Ev_read (Some (stdin_thread_read g)) (reads i), Ev_write (stdin_thread_write g)] #
       map (\<lambda>j. [Ev_read (Some (stdin_thread_read g)) (reads (Suc i + j)), Ev_write (stdin_thread_write g)]) [0..<k]"
    by (simp add: upt_conv_Cons map_Suc_upt [symmetric] del: upt_Suc)
  show ?case
    using pos Suc.IH [OF a b] 
    by (subst stdin_loop.simps) (simp add: shift del: upt_Suc)
qed

lemma stdout_loop_run:
  "stdout_thread_read g = Some call \<Longrightarrow> \<forall>j<k. 0 < reads (i + j) \<Longrightarrow> reads (i + k) \<le> 0 \<Longrightarrow>
   stdout_loop g reads i tr =
     Some (tr @ concat (map (\<lambda>j. [Ev_read (Some call) (reads (i + j)), Ev_write (stdout_thread_write g)]) [0..<k])
              @ [Ev_read (Some call) (reads (i + k))])"
proof (induction k arbitrary: i tr)
  case 0
  then show ?case by (subst stdout_loop.simps) (simp add: read_value_def)
next
  case (Suc k)
  have pos: "0 < reads i" using Suc.prems(2) by force
  have a: "\<forall>j<k. 0 < reads (Suc i + j)" using Suc.prems(2) by force
  have b: "reads (Suc i + k) \<le> 0" using Suc.prems(3) by simp
  have shift: "map (\<lambda>j. [Ev_read (Some call) (reads (i + j)), Ev_write (stdout_thread_write g)]) [0..<Suc k]
     = [Ev_read (Some call) (reads i), Ev_write (stdout_thread_write g)] #
       map (\<lambda>j. [Ev_read (Some call) (reads (Suc i + j)), Ev_write (stdout_thread_write g)]) [0..<k]"
    by (simp add: upt_conv_Cons map_Suc_upt [symmetric] del: upt_Suc)
  show ?case
    using pos Suc.IH [OF Suc.prems(1) a b] Suc.prems(1)
    by (subst stdout_loop.simps) (simp add: shift read_value_def del: upt_Suc)
qed

text \<open>
  C6. Let the read number \<open>k\<close> of a loop be the first that returns a value that is not
  positive (zero bytes or an error). Then the routine returns, and its events are
  exactly: \<open>k\<close> rounds of a positive read followed by a write, the read that was not
  positive, and \<open>pthread_kill\<close> of the sibling thread. So no read or write follows that
  read, and the sibling is signalled before the routine returns. This holds for the
  upload routine, and for the download routine whenever it has a source (otherwise it
  returns before its first read).
\<close>

theorem loops_stop_and_signal_sibling:
  assumes "\<forall>j<k. 0 < reads j" and "reads k \<le> 0"
  shows "stdin_routine g reads =
           Some (g\<lparr>stdin_running := False\<rparr>,
                 rounds (Some (stdin_thread_read g)) (stdin_thread_write g) reads k @
                 [Ev_read (Some (stdin_thread_read g)) (reads k), Ev_kill Stdout_thread]) \<and>
         (stdin_fifo g \<noteq> - 1 \<or> sockfd g \<noteq> - 1 \<longrightarrow>
          stdout_routine g reads =
            Some (g\<lparr>stdout_running := False\<rparr>,
                  rounds (stdout_thread_read g) (stdout_thread_write g) reads k @
                  [Ev_read (stdout_thread_read g) (reads k), Ev_kill Stdin_thread]))"
proof (intro conjI impI)
  have r: "stdin_thread_read (g\<lparr>stdin_running := True\<rparr>) = stdin_thread_read g"
    "stdin_thread_write (g\<lparr>stdin_running := True\<rparr>) = stdin_thread_write g"
    by (simp_all add: stdin_thread_read_def stdin_thread_write_def)
  show "stdin_routine g reads =
           Some (g\<lparr>stdin_running := False\<rparr>,
                 rounds (Some (stdin_thread_read g)) (stdin_thread_write g) reads k @
                 [Ev_read (Some (stdin_thread_read g)) (reads k), Ev_kill Stdout_thread])"
    using stdin_loop_run [of k reads 0 "g\<lparr>stdin_running := True\<rparr>" "[]"] assms
    by (simp add: stdin_routine_def rounds_def r)
next
  assume src: "stdin_fifo g \<noteq> - 1 \<or> sockfd g \<noteq> - 1"
  then have "stdout_thread_read g \<noteq> None"
    by (auto simp: stdout_thread_read_def)
  then obtain call where call: "stdout_thread_read g = Some call"
    by blast
  have "stdout_thread_read (g\<lparr>stdout_running := True\<rparr>) = stdout_thread_read g"
    by (simp add: stdout_thread_read_def)
  then have r: "stdout_thread_read (g\<lparr>stdout_running := True\<rparr>) = Some call"
    "stdout_thread_write (g\<lparr>stdout_running := True\<rparr>) = stdout_thread_write g"
    using call by (simp_all add: stdout_thread_write_def)
  show "stdout_routine g reads =
            Some (g\<lparr>stdout_running := False\<rparr>,
                  rounds (stdout_thread_read g) (stdout_thread_write g) reads k @
                  [Ev_read (stdout_thread_read g) (reads k), Ev_kill Stdin_thread])"
    using stdout_loop_run [OF r(1), of k reads 0 "[]"] assms src call
    by (auto simp: stdout_routine_def rounds_def r)
qed


theorem loops_stop_and_signal_sibling_witness:
  "stdout_routine
     \<lparr>stdin_fifo = - 1, stdout_fifo = - 1, sockfd = 5, servfd = - 1, fifo_reverse = False,
      stdin_running = True, stdout_running = False\<rparr> (\<lambda>i. if i < 2 then 12 else 0) =
   Some (\<lparr>stdin_fifo = - 1, stdout_fifo = - 1, sockfd = 5, servfd = - 1, fifo_reverse = False,
      stdin_running = True, stdout_running = False\<rparr>,
     [Ev_read (Some (Socket_read 5)) 12, Ev_write (Buffer_write 1),
      Ev_read (Some (Socket_read 5)) 12, Ev_write (Buffer_write 1),
      Ev_read (Some (Socket_read 5)) 0, Ev_kill Stdin_thread])"
proof -
  have h1: "\<forall>j<2. 0 < (\<lambda>i. if i < 2 then 12 else (0::int)) j" by simp
  have h2: "(\<lambda>i. if i < 2 then 12 else (0::int)) (2::nat) \<le> 0" by simp
  show ?thesis
    using loops_stop_and_signal_sibling [OF h1 h2, of "\<lparr>stdin_fifo = - 1, stdout_fifo = - 1, sockfd = 5, servfd = - 1,
      fifo_reverse = False, stdin_running = True, stdout_running = False\<rparr>"]
    by (simp add: rounds_def stdout_thread_read_def stdout_thread_write_def upt_rec)
qed


end
